theory Spec2Isabelle
  imports Complex_Main "HOL-Library.Multiset" "HOL-Library.Code_Target_Numeral"
begin

section \<open>JavaScript values used by the wallet\<close>

text \<open>
  The wallet is TypeScript running on a JavaScript engine. The embedding keeps the
  following conventions throughout.

  \<^item> A timestamp or a page number is an \<^typ>\<open>int\<close>; a number that is the result of the
    division \<open>/\<close> is a \<^typ>\<open>rat\<close>, the exact quotient. The amount typed into the receive
    form, its product with 1000 and the printing of that product are modelled as the
    double arithmetic they are (section on the receive form).
  \<^item> \<open>NaN\<close> is \<open>None\<close>: \<open>parseInt\<close> and \<open>Number\<close> return an option, arithmetic on
    \<open>None\<close> gives \<open>None\<close>, every comparison with \<open>None\<close> is false.
  \<^item> An optional field \<open>f?: string\<close> is a \<^typ>\<open>string option\<close>; JavaScript truthiness of
    such a field (\<open>undefined\<close> and the empty string are falsy) is \<open>truthy\<close> below.
  \<^item> A thrown exception is a value \<open>JsError\<close>; a call that may throw returns a sum with
    the error on the left, and each \<open>try\<close>/\<open>catch\<close> of the source is a case distinction.
  \<^item> Strings are ASCII \<^typ>\<open>string\<close>s.
\<close>

datatype js_error = JsError string

text \<open>A parsed JSON value.\<close>

datatype json =
    JNull
  | JBool bool
  | JNum rat
  | JStr string
  | JArr "json list"
  | JObj "(string \<times> json) list"

text \<open>\<open>x || d\<close> for an optional string \<open>x\<close>, and the truthy content of \<open>x\<close>.\<close>

definition truthy :: "string option \<Rightarrow> string option" where
  "truthy x = (case x of None \<Rightarrow> None | Some s \<Rightarrow> (if s = [] then None else Some s))"

definition orElse :: "string option \<Rightarrow> string \<Rightarrow> string" where
  "orElse x d = (case truthy x of None \<Rightarrow> d | Some s \<Rightarrow> s)"

text \<open>
  \<open>new Date(n * 1000)\<close>: the time value in milliseconds, or an Invalid Date (\<open>None\<close>) when
  \<open>n\<close> is \<open>NaN\<close> or the product is outside the range of \<open>TimeClip\<close>.
\<close>

definition times1000 :: "int option \<Rightarrow> int option" where
  "times1000 n = map_option (\<lambda>k. k * 1000) n"

definition newDate :: "int option \<Rightarrow> int option" where
  "newDate ms = (case ms of None \<Rightarrow> None
     | Some t \<Rightarrow> (if \<bar>t\<bar> \<le> 8640000000000000 then Some t else None))"

text \<open>\<open>a + b\<close> and \<open>a > b\<close> on numbers that may be \<open>NaN\<close>.\<close>

definition plus_num :: "int option \<Rightarrow> int option \<Rightarrow> int option" where
  "plus_num a b = (case (a, b) of (Some x, Some y) \<Rightarrow> Some (x + y) | _ \<Rightarrow> None)"

definition gt_num :: "int option \<Rightarrow> int option \<Rightarrow> bool" where
  "gt_num a b = (case (a, b) of (Some x, Some y) \<Rightarrow> x > y | _ \<Rightarrow> False)"

section \<open>Transaction history: the data model (types.ts)\<close>

text \<open>
  Field names carry a prefix (\<open>p_\<close> for \<open>Payment\<close>, \<open>i_\<close> for \<open>Invoice\<close>, \<open>tx_\<close> for
  \<open>Transaction\<close>) because the interfaces share names. Of an HTLC only its \<open>status\<close> is read.
\<close>

record Payment =
  p_payment_hash :: string
  p_value_msat :: string
  p_fee_msat :: string
  p_creation_date :: string
  p_path :: "string list option"
  p_status :: string
  p_payment_request :: "string option"
  p_htlcs :: "string list option"

record Invoice =
  i_r_hash :: string
  i_value_msat :: "string option"
  i_value :: "string option"
  i_memo :: "string option"
  i_state :: string
  i_settle_date :: string
  i_payment_request :: string
  i_expiry :: "string option"
  i_creation_date :: "string option"

datatype tx_kind = sent | received

fun kind_name :: "tx_kind \<Rightarrow> string" where
  "kind_name sent = ''sent''"
| "kind_name received = ''received''"

record Transaction =
  tx_id :: string
  tx_type :: tx_kind
  tx_amount :: "rat option"
  tx_fee :: "rat option option"
  tx_date :: "int option"
  tx_description :: string
  tx_status :: string
  tx_paymentRequest :: "string option"
  tx_destination :: "string option"
  tx_isExpired :: "bool option"
  tx_expiryDate :: "int option option"
  tx_displayState :: "string option"
  tx_htlcState :: "string option"
  tx_rawData :: "Payment + Invoice"

record TransactionFilters =
  filter_type :: "string list"
  filter_status :: "string list"
  timeRange :: string

section \<open>The engine's functions\<close>

text \<open>
  The engine's own functions are not code of the repository. The ones the components
  call are taken as parameters, collected in one record, so that every theorem below holds
  for whatever these functions compute: \<open>parseInt\<close> and \<open>Number\<close> on a string (\<open>None\<close> is
  \<open>NaN\<close>), \<open>JSON.parse\<close> (\<open>None\<close> is the \<open>SyntaxError\<close> it throws), \<open>JSON.stringify\<close>,
  the conversion to a string that a template literal applies to a value or to
  \<open>undefined\<close>, and \<open>Array.prototype.sort\<close> on the list of transactions with a comparison
  function whose result may be \<open>NaN\<close>.
\<close>

record js_runtime =
  parseInt :: "string \<Rightarrow> int option"
  Number :: "string \<Rightarrow> rat option"
  JSON_parse :: "string \<Rightarrow> json option"
  JSON_stringify :: "json \<Rightarrow> string"
  String :: "json option \<Rightarrow> string"
  Array_sort :: "(Transaction \<Rightarrow> Transaction \<Rightarrow> int option) \<Rightarrow> Transaction list \<Rightarrow> Transaction list"

text \<open>
  What the language specification says of \<open>Array.prototype.sort\<close>, as far as it is used
  here. A result of the comparison function that is \<open>NaN\<close> counts as \<open>0\<close>
  (\<open>sortCompare\<close>). The sorted array is always a rearrangement of the array; when the
  comparison function is consistent on its elements (it orders them as a total preorder),
  no element of the sorted array compares greater than a later one. For a comparison
  function that is not consistent the order is left to the engine.
\<close>

definition sortCompare :: "('a \<Rightarrow> 'a \<Rightarrow> int option) \<Rightarrow> 'a \<Rightarrow> 'a \<Rightarrow> int" where
  "sortCompare compareFn a b = (case compareFn a b of None \<Rightarrow> 0 | Some v \<Rightarrow> v)"

definition consistentComparator :: "('a \<Rightarrow> 'a \<Rightarrow> int option) \<Rightarrow> 'a set \<Rightarrow> bool" where
  "consistentComparator compareFn S =
     (\<forall>a \<in> S. \<forall>b \<in> S.
        (sortCompare compareFn a b < 0) = (sortCompare compareFn b a > 0) \<and>
        (\<forall>c \<in> S. sortCompare compareFn a b \<le> 0 \<and> sortCompare compareFn b c \<le> 0
                 \<longrightarrow> sortCompare compareFn a c \<le> 0))"

definition sortsAsSpecified :: "js_runtime \<Rightarrow> bool" where
  "sortsAsSpecified js =
     (\<forall>compareFn xs.
        mset (Array_sort js compareFn xs) = mset xs \<and>
        (consistentComparator compareFn (set xs) \<longrightarrow>
           sorted_wrt (\<lambda>a b. sortCompare compareFn a b \<le> 0) (Array_sort js compareFn xs)))"

section \<open>Transaction history: loading and reconciliation\<close>

text \<open>\<open>mSatsToSats\<close>: \<open>Number(mSats) / 1000\<close>, the JavaScript division, not \<open>Math.floor\<close>.\<close>

definition mSatsToSats :: "js_runtime \<Rightarrow> string \<Rightarrow> rat option" where
  "mSatsToSats js mSats = map_option (\<lambda>n. n / 1000) (Number js mSats)"

text \<open>
  \<open>decodePaymentRequest\<close> with an initialised client: the node's \<open>decodePayReq\<close> either
  throws or returns an object whose \<open>description\<close> is optional.
\<close>

definition decodePaymentRequest :: "(string \<Rightarrow> js_error + string option) \<Rightarrow> string \<Rightarrow> string" where
  "decodePaymentRequest decodePayReq payReq =
     (case decodePayReq payReq of
        Inl err \<Rightarrow> ''Unable to decode''
      | Inr description \<Rightarrow> orElse description ''No description'')"

text \<open>The last element of an optional array that is present and not empty.\<close>

definition lastOf :: "string list option \<Rightarrow> string option" where
  "lastOf xs = (case xs of None \<Rightarrow> None | Some ys \<Rightarrow> (if ys = [] then None else Some (last ys)))"

text \<open>The callback of \<open>paymentsResponse.payments.map\<close> in \<open>loadTransactions\<close>.\<close>

definition paymentToTransaction ::
  "js_runtime \<Rightarrow> (string \<Rightarrow> js_error + string option) \<Rightarrow> Payment \<Rightarrow> Transaction" where
  "paymentToTransaction js decodePayReq payment =
     (let description =
            (case truthy (p_payment_request payment) of
               Some payReq \<Rightarrow> decodePaymentRequest decodePayReq payReq
             | None \<Rightarrow> (case lastOf (p_path payment) of
                          Some hop \<Rightarrow> ''Payment to '' @ hop
                        | None \<Rightarrow> ''Lightning payment''));
          htlcState = (case lastOf (p_htlcs payment) of Some s \<Rightarrow> s | None \<Rightarrow> '''')
      in \<lparr> tx_id = p_payment_hash payment,
           tx_type = sent,
           tx_amount = mSatsToSats js (p_value_msat payment),
           tx_fee = Some (mSatsToSats js (p_fee_msat payment)),
           tx_date = newDate (times1000 (parseInt js (p_creation_date payment))),
           tx_description = description,
           tx_status = p_status payment,
           tx_paymentRequest = Some (orElse (p_payment_request payment) ''''),
           tx_destination = Some (case lastOf (p_path payment) of Some hop \<Rightarrow> hop | None \<Rightarrow> ''''),
           tx_isExpired = None,
           tx_expiryDate = None,
           tx_displayState = Some (p_status payment),
           tx_htlcState = Some htlcState,
           tx_rawData = Inl payment \<rparr>)"

text \<open>
  The callback of \<open>invoices.map\<close> in \<open>processInvoices\<close>. Both branches of the source's
  conditional on \<open>invoice.state === 'SETTLED'\<close> for the amount are the same expression.
\<close>

definition invoiceAmount :: "js_runtime \<Rightarrow> Invoice \<Rightarrow> rat option" where
  "invoiceAmount js invoice =
     (case truthy (i_value_msat invoice) of
        Some v \<Rightarrow> mSatsToSats js v
      | None \<Rightarrow> (case truthy (i_value invoice) of
                   Some v \<Rightarrow> map_option of_int (parseInt js v)
                 | None \<Rightarrow> Some 0))"

definition creationDate :: "js_runtime \<Rightarrow> Invoice \<Rightarrow> int option" where
  "creationDate js invoice = parseInt js (orElse (i_creation_date invoice) ''0'')"

definition invoiceStatus :: "Invoice \<Rightarrow> string" where
  "invoiceStatus invoice = (if i_state invoice = [] then ''UNKNOWN'' else i_state invoice)"

definition expirySeconds :: "js_runtime \<Rightarrow> Invoice \<Rightarrow> int option" where
  "expirySeconds js invoice =
     (case truthy (i_expiry invoice) of Some e \<Rightarrow> parseInt js e | None \<Rightarrow> Some 3600)"

definition expiryTimestamp :: "js_runtime \<Rightarrow> Invoice \<Rightarrow> int option" where
  "expiryTimestamp js invoice = plus_num (creationDate js invoice) (expirySeconds js invoice)"

definition invoiceToTransaction :: "js_runtime \<Rightarrow> int \<Rightarrow> Invoice \<Rightarrow> Transaction" where
  "invoiceToTransaction js currentTime invoice =
     (let date = (if i_state invoice = ''SETTLED'' \<and> i_settle_date invoice \<noteq> []
                  then newDate (times1000 (parseInt js (i_settle_date invoice)))
                  else newDate (times1000 (creationDate js invoice)));
          status = invoiceStatus invoice;
          isExpired = (status = ''OPEN'' \<and> gt_num (Some currentTime) (expiryTimestamp js invoice))
      in \<lparr> tx_id = i_r_hash invoice,
           tx_type = received,
           tx_amount = invoiceAmount js invoice,
           tx_fee = None,
           tx_date = date,
           tx_description = orElse (i_memo invoice) ''Lightning invoice'',
           tx_status = status,
           tx_paymentRequest = Some (i_payment_request invoice),
           tx_destination = None,
           tx_isExpired = Some isExpired,
           tx_expiryDate = Some (newDate (times1000 (expiryTimestamp js invoice))),
           tx_displayState = Some (i_state invoice),
           tx_htlcState = None,
           tx_rawData = Inr invoice \<rparr>)"

definition processInvoices :: "js_runtime \<Rightarrow> Invoice list \<Rightarrow> int \<Rightarrow> Transaction list" where
  "processInvoices js invoices currentTime = map (invoiceToTransaction js currentTime) invoices"

text \<open>\<open>(a, b) => b.date.getTime() - a.date.getTime()\<close>\<close>

definition compareDates :: "Transaction \<Rightarrow> Transaction \<Rightarrow> int option" where
  "compareDates a b =
     (case (tx_date b, tx_date a) of (Some tb, Some ta) \<Rightarrow> Some (tb - ta) | _ \<Rightarrow> None)"

text \<open>\<open>a.date >= b.date\<close> on two transactions: false when either date is invalid.\<close>

definition dateGe :: "Transaction \<Rightarrow> Transaction \<Rightarrow> bool" where
  "dateGe a b = (case (tx_date a, tx_date b) of (Some ta, Some tb) \<Rightarrow> ta \<ge> tb | _ \<Rightarrow> False)"

subsection \<open>Component state\<close>

text \<open>
  The state variables of \<open>TransactionHistory\<close> that loading, filtering and pagination
  read or write; \<open>client\<close> records whether the node client has been created. The toggles
  of the filter panel and of the detail view are left out.
\<close>

record th_state =
  transactions :: "Transaction list"
  filteredTransactions :: "Transaction list"
  th_loading :: bool
  th_error :: "string option"
  currentPage :: int
  totalPages :: int
  client :: bool
  lastUpdated :: "int option"
  filters :: TransactionFilters

definition th_initial :: th_state where
  "th_initial =
     \<lparr> transactions = [], filteredTransactions = [], th_loading = True, th_error = None,
       currentPage = 1, totalPages = 1, client = False, lastUpdated = None,
       filters = \<lparr> filter_type = [''all''], filter_status = [''all''], timeRange = ''all'' \<rparr> \<rparr>"

text \<open>
  What the browser's clock and calendar supply to one call: \<open>Date.now()\<close> in milliseconds,
  and the three start dates that \<open>applyFilters\<close> derives from \<open>new Date()\<close> with
  \<open>setHours(0, 0, 0, 0)\<close>, \<open>setDate(now.getDate() - 7)\<close> and \<open>setMonth(now.getMonth() - 1)\<close>
  (local calendar arithmetic, taken as given).
\<close>

record clock =
  nowMs :: int
  startOfToday :: int
  weekAgo :: int
  monthAgo :: int

subsection \<open>Filtering and pagination\<close>

definition typeFilter :: "TransactionFilters \<Rightarrow> Transaction list \<Rightarrow> Transaction list" where
  "typeFilter f txs =
     (if ''all'' \<in> set (filter_type f) then txs
      else filter (\<lambda>tx. kind_name (tx_type tx) \<in> set (filter_type f)) txs)"

definition statusFilter :: "TransactionFilters \<Rightarrow> Transaction list \<Rightarrow> Transaction list" where
  "statusFilter f txs =
     (if ''all'' \<in> set (filter_status f) then txs
      else filter (\<lambda>tx. tx_status tx \<in> set (filter_status f)) txs)"

definition startDate :: "clock \<Rightarrow> string \<Rightarrow> int" where
  "startDate clk selected =
     (if selected = ''today'' then startOfToday clk
      else if selected = ''week'' then weekAgo clk
      else if selected = ''month'' then monthAgo clk
      else nowMs clk)"

definition timeFilter :: "clock \<Rightarrow> TransactionFilters \<Rightarrow> Transaction list \<Rightarrow> Transaction list" where
  "timeFilter clk f txs =
     (if timeRange f = ''all'' then txs
      else filter (\<lambda>tx. case tx_date tx of None \<Rightarrow> False
                              | Some d \<Rightarrow> d \<ge> startDate clk (timeRange f)) txs)"

text \<open>
  \<open>applyFilters(txList)\<close> with the component's \<open>pageSize\<close>. \<open>Math.ceil(totalItems / pageSize)\<close>
  is the ceiling of the exact quotient; the component is mounted with a positive page size
  (the default 10, and 5 from \<open>page.tsx\<close>), and the theorems below assume one.
\<close>

definition applyFilters :: "int \<Rightarrow> clock \<Rightarrow> Transaction list \<Rightarrow> th_state \<Rightarrow> th_state" where
  "applyFilters pageSize clk txList st =
     (let filtered = timeFilter clk (filters st)
                       (statusFilter (filters st) (typeFilter (filters st) txList));
          totalItems = int (length filtered);
          calculatedTotalPages = \<lceil>(of_int totalItems :: rat) / of_int pageSize\<rceil>
      in st \<lparr> filteredTransactions := filtered,
              totalPages := (if calculatedTotalPages > 0 then calculatedTotalPages else 1),
              currentPage := 1 \<rparr>)"

datatype filter_update = SetType "string list" | SetStatus "string list" | SetTimeRange string

fun newFilters :: "TransactionFilters \<Rightarrow> filter_update \<Rightarrow> TransactionFilters" where
  "newFilters f (SetType v) = f \<lparr> filter_type := v \<rparr>"
| "newFilters f (SetStatus v) = f \<lparr> filter_status := v \<rparr>"
| "newFilters f (SetTimeRange v) = f \<lparr> timeRange := v \<rparr>"

text \<open>
  \<open>updateFilter\<close> stores the new filters and calls \<open>applyFilters(transactions)\<close>, which in
  that render still reads the previous \<open>filters\<close>; the effect on \<open>[filters]\<close> then applies
  the new ones (\<open>filtersEffect\<close>).
\<close>

definition updateFilter :: "int \<Rightarrow> clock \<Rightarrow> filter_update \<Rightarrow> th_state \<Rightarrow> th_state" where
  "updateFilter pageSize clk u st =
     (applyFilters pageSize clk (transactions st) st) \<lparr> filters := newFilters (filters st) u \<rparr>"

definition filtersEffect :: "int \<Rightarrow> clock \<Rightarrow> th_state \<Rightarrow> th_state" where
  "filtersEffect pageSize clk st =
     (if length (transactions st) > 0 then applyFilters pageSize clk (transactions st) st else st)"

datatype toggle_key = type_key | status_key

definition toggledValues :: "string list \<Rightarrow> string \<Rightarrow> string list" where
  "toggledValues currentValues v =
     (if v = ''all'' then [''all'']
      else let newValues = filter (\<lambda>x. x \<noteq> ''all'') currentValues
           in if v \<in> set newValues
              then (let rest = filter (\<lambda>x. x \<noteq> v) newValues
                    in if length rest = 0 then [''all''] else rest)
              else newValues @ [v])"

fun toggleFilterValue :: "int \<Rightarrow> clock \<Rightarrow> toggle_key \<Rightarrow> string \<Rightarrow> th_state \<Rightarrow> th_state" where
  "toggleFilterValue pageSize clk type_key v st =
     updateFilter pageSize clk (SetType (toggledValues (filter_type (filters st)) v)) st"
| "toggleFilterValue pageSize clk status_key v st =
     updateFilter pageSize clk (SetStatus (toggledValues (filter_status (filters st)) v)) st"

text \<open>
  \<open>Array.prototype.slice(start, end)\<close>: a negative index counts from the end, and both
  are clamped to the array.
\<close>

definition slice :: "'a list \<Rightarrow> int \<Rightarrow> int \<Rightarrow> 'a list" where
  "slice xs start end' =
     (let len = int (length xs);
          k = (if start < 0 then max (len + start) 0 else min start len);
          final = (if end' < 0 then max (len + end') 0 else min end' len)
      in take (nat (final - k)) (drop (nat k) xs))"

definition getPaginatedTransactions :: "int \<Rightarrow> th_state \<Rightarrow> Transaction list" where
  "getPaginatedTransactions pageSize st =
     (let startIndex = (currentPage st - 1) * pageSize;
          endIndex = startIndex + pageSize
      in slice (filteredTransactions st) startIndex endIndex)"

definition handlePageChange :: "int \<Rightarrow> th_state \<Rightarrow> th_state" where
  "handlePageChange page st =
     (if page < 1 \<or> page > totalPages st then st else st \<lparr> currentPage := page \<rparr>)"

subsection \<open>Loading\<close>

text \<open>
  A response of the node client: no object at all, or an object whose list field may be
  missing. \<open>listInvoices\<close> takes the \<open>pending_only\<close> flag of the request.
\<close>

datatype 'a response = NoResponse | Response "'a list option"

record lnd_node =
  listPayments :: "js_error + Payment response"
  listInvoices :: "bool \<Rightarrow> js_error + Invoice response"
  decodePayReq :: "string \<Rightarrow> js_error + string option"

definition sentPayments :: "js_runtime \<Rightarrow> lnd_node \<Rightarrow> Payment response \<Rightarrow> Transaction list" where
  "sentPayments js node paymentsResponse =
     (case paymentsResponse of
        Response (Some payments) \<Rightarrow> map (paymentToTransaction js (decodePayReq node)) payments
      | _ \<Rightarrow> [])"

text \<open>
  \<open>[...(settled.invoices || []), ...(pending.invoices || [])]\<close>; reading \<open>.invoices\<close> of a
  missing response throws a \<open>TypeError\<close>.
\<close>

definition combinedInvoices :: "Invoice response \<Rightarrow> Invoice response \<Rightarrow> js_error + Invoice list" where
  "combinedInvoices settledInvoicesResponse pendingInvoicesResponse =
     (case (settledInvoicesResponse, pendingInvoicesResponse) of
        (Response a, Response b) \<Rightarrow>
          Inr ((case a of None \<Rightarrow> [] | Some xs \<Rightarrow> xs) @ (case b of None \<Rightarrow> [] | Some ys \<Rightarrow> ys))
      | _ \<Rightarrow> Inl (JsError ''TypeError''))"

definition receivedPayments :: "js_runtime \<Rightarrow> clock \<Rightarrow> Invoice list \<Rightarrow> Transaction list" where
  "receivedPayments js clk combined =
     (if length combined > 0 then processInvoices js combined (nowMs clk div 1000) else [])"

text \<open>\<open>[...sentPayments, ...receivedPayments].sort(...)\<close>\<close>

definition allTransactions ::
  "js_runtime \<Rightarrow> Transaction list \<Rightarrow> Transaction list \<Rightarrow> Transaction list" where
  "allTransactions js sentTxs receivedTxs = Array_sort js compareDates (sentTxs @ receivedTxs)"

text \<open>The fetches and the mapping of \<open>loadTransactions\<close>, up to the sort; \<open>Inl\<close> is a throw.\<close>

definition fetchTransactions :: "js_runtime \<Rightarrow> lnd_node \<Rightarrow> clock \<Rightarrow> js_error + Transaction list" where
  "fetchTransactions js node clk =
     (case listPayments node of
        Inl err \<Rightarrow> Inl err
      | Inr paymentsResponse \<Rightarrow>
          (case listInvoices node False of
             Inl err \<Rightarrow> Inl err
           | Inr settledInvoicesResponse \<Rightarrow>
               (case listInvoices node True of
                  Inl err \<Rightarrow> Inl err
                | Inr pendingInvoicesResponse \<Rightarrow>
                    (case combinedInvoices settledInvoicesResponse pendingInvoicesResponse of
                       Inl err \<Rightarrow> Inl err
                     | Inr combined \<Rightarrow>
                         Inr (allTransactions js (sentPayments js node paymentsResponse)
                                  (receivedPayments js clk combined))))))"

definition loadTransactions :: "int \<Rightarrow> js_runtime \<Rightarrow> lnd_node \<Rightarrow> clock \<Rightarrow> th_state \<Rightarrow> th_state" where
  "loadTransactions pageSize js node clk st =
     (if \<not> client st then st
      else (case fetchTransactions js node clk of
              Inl err \<Rightarrow>
                st \<lparr> th_error := Some ''Failed to load transaction history. Please try again later.'',
                     th_loading := False \<rparr>
            | Inr allTxs \<Rightarrow>
                (applyFilters pageSize clk allTxs (st \<lparr> th_error := None, transactions := allTxs \<rparr>))
                  \<lparr> lastUpdated := Some (nowMs clk), th_loading := False \<rparr>))"

text \<open>
  The states the component can be in, for a fixed page size: the initial state, the mount
  effect (which creates the client, or fails and sets an error), and then any sequence of
  loads, filter changes, filter effects and page changes.
\<close>

inductive reachable :: "int \<Rightarrow> th_state \<Rightarrow> bool" for pageSize :: int where
  r_initial: "reachable pageSize th_initial"
| r_client: "reachable pageSize st \<Longrightarrow> reachable pageSize (st \<lparr> client := True \<rparr>)"
| r_failed: "reachable pageSize st \<Longrightarrow>
     reachable pageSize
       (st \<lparr> th_error := Some ''Failed to connect to Lightning Network. Please check your connection.'' \<rparr>)"
| r_load: "reachable pageSize st \<Longrightarrow> reachable pageSize (loadTransactions pageSize js node clk st)"
| r_update: "reachable pageSize st \<Longrightarrow> reachable pageSize (updateFilter pageSize clk u st)"
| r_toggle: "reachable pageSize st \<Longrightarrow> reachable pageSize (toggleFilterValue pageSize clk k v st)"
| r_effect: "reachable pageSize st \<Longrightarrow> reachable pageSize (filtersEffect pageSize clk st)"
| r_page: "reachable pageSize st \<Longrightarrow> reachable pageSize (handlePageChange page st)"

section \<open>The event bus (utils/eventBus)\<close>

datatype AppEvent = transaction_new | invoice_created | payment_sent

fun event_name :: "AppEvent \<Rightarrow> string" where
  "event_name transaction_new = ''transaction:new''"
| "event_name invoice_created = ''invoice:created''"
| "event_name payment_sent = ''payment:sent''"

text \<open>
  A callback is a function object: its identity (what \<open>indexOf\<close> compares) and its
  behaviour. Called with the arguments of \<open>emit\<close> it changes the world outside the bus
  and either returns or throws; what it did before throwing stays done. Callbacks that
  subscribe or unsubscribe on the same bus while it emits are not modelled.
\<close>

type_synonym ('a, 'w) EventCallback = "nat \<times> ('a \<Rightarrow> 'w \<Rightarrow> 'w \<times> js_error option)"

record ('a, 'w) EventBus =
  events :: "AppEvent \<Rightarrow> ('a, 'w) EventCallback list option"

definition newEventBus :: "('a, 'w) EventBus" where
  "newEventBus = \<lparr> events = (\<lambda>e. None) \<rparr>"

definition on :: "('a, 'w) EventBus \<Rightarrow> AppEvent \<Rightarrow> ('a, 'w) EventCallback \<Rightarrow> ('a, 'w) EventBus" where
  "on bus event callback =
     (let callbacks = (case events bus event of None \<Rightarrow> [] | Some cbs \<Rightarrow> cbs)
      in bus \<lparr> events := (events bus) (event := Some (callbacks @ [callback])) \<rparr>)"

fun removeFirst :: "nat \<Rightarrow> ('a, 'w) EventCallback list \<Rightarrow> ('a, 'w) EventCallback list" where
  "removeFirst ident [] = []"
| "removeFirst ident (cb # cbs) = (if fst cb = ident then cbs else cb # removeFirst ident cbs)"

definition off :: "('a, 'w) EventBus \<Rightarrow> AppEvent \<Rightarrow> ('a, 'w) EventCallback \<Rightarrow> ('a, 'w) EventBus" where
  "off bus event callback =
     (case events bus event of
        None \<Rightarrow> bus
      | Some callbacks \<Rightarrow>
          bus \<lparr> events := (events bus) (event := Some (removeFirst (fst callback) callbacks)) \<rparr>)"

text \<open>
  What one \<open>emit\<close> does: the world after it, the calls made (callback identity and the
  arguments passed), and the lines written with \<open>console.error\<close>.
\<close>

record ('a, 'w) emitted =
  world :: 'w
  calls :: "(nat \<times> 'a) list"
  console :: "(AppEvent \<times> js_error) list"

text \<open>The body of \<open>callbacks.forEach\<close>: each call sits in its own \<open>try\<close>/\<open>catch\<close>.\<close>

fun forEach :: "AppEvent \<Rightarrow> 'a \<Rightarrow> ('a, 'w) EventCallback list \<Rightarrow> ('a, 'w) emitted \<Rightarrow> ('a, 'w) emitted" where
  "forEach event args [] acc = acc"
| "forEach event args (callback # rest) acc =
     (case snd callback args (world acc) of
        (w, None) \<Rightarrow>
          forEach event args rest
            (acc \<lparr> world := w, calls := calls acc @ [(fst callback, args)] \<rparr>)
      | (w, Some err) \<Rightarrow>
          forEach event args rest
            (acc \<lparr> world := w, calls := calls acc @ [(fst callback, args)],
                   console := console acc @ [(event, err)] \<rparr>))"

definition emit :: "('a, 'w) EventBus \<Rightarrow> AppEvent \<Rightarrow> 'a \<Rightarrow> 'w \<Rightarrow> ('a, 'w) emitted" where
  "emit bus event args w =
     (case events bus event of
        None \<Rightarrow> \<lparr> world = w, calls = [], console = [] \<rparr>
      | Some callbacks \<Rightarrow> forEach event args callbacks \<lparr> world = w, calls = [], console = [] \<rparr>)"

section \<open>The receive form (LightningReceive.tsx)\<close>

subsection \<open>Numbers of the form\<close>

text \<open>
  The amount is set by \<open>setAmount(parseInt(e.target.value) || 0)\<close>: an integer that a double
  holds, or an infinity when the digits typed exceed the range of a double (\<open>NaN\<close> and
  \<open>-0\<close> are replaced by \<open>0\<close>). \<open>Finite n\<close> stands for the double whose value is the
  integer \<open>n\<close>.
\<close>

datatype number = Finite int | PlusInfinity | MinusInfinity

text \<open>
  The double nearest to a natural number, ties to the even significand of 53 bits, as the
  multiplication \<open>*\<close> delivers it for the exact product; \<open>None\<close> when the result is beyond
  the largest double.
\<close>

fun bitLength :: "nat \<Rightarrow> nat" where
  "bitLength n = (if n = 0 then 0 else Suc (bitLength (n div 2)))"

declare bitLength.simps [simp del]

definition roundNat :: "nat \<Rightarrow> nat option" where
  "roundNat m =
     (if bitLength m \<le> 53 then Some m
      else (let shift = bitLength m - 53;
                q = m div 2 ^ shift;
                r = m mod 2 ^ shift;
                half = 2 ^ (shift - 1);
                rounded = (if r > half \<or> (r = half \<and> odd q) then q + 1 else q) * 2 ^ shift
            in if rounded \<ge> 2 ^ 1024 then None else Some rounded))"

definition roundDouble :: "int \<Rightarrow> number" where
  "roundDouble i =
     (if i \<ge> 0 then (case roundNat (nat i) of Some v \<Rightarrow> Finite (int v) | None \<Rightarrow> PlusInfinity)
      else (case roundNat (nat (- i)) of Some v \<Rightarrow> Finite (- int v) | None \<Rightarrow> MinusInfinity))"

text \<open>\<open>amount * 1000\<close>\<close>

fun timesThousand :: "number \<Rightarrow> number" where
  "timesThousand (Finite a) = roundDouble (a * 1000)"
| "timesThousand PlusInfinity = PlusInfinity"
| "timesThousand MinusInfinity = MinusInfinity"

text \<open>The decimal numeral of an integer.\<close>

definition digitChar :: "nat \<Rightarrow> char" where
  "digitChar d = char_of (48 + d)"

fun natToString :: "nat \<Rightarrow> string" where
  "natToString n = (if n < 10 then [digitChar n] else natToString (n div 10) @ [digitChar (n mod 10)])"

declare natToString.simps [simp del]

definition decimalString :: "int \<Rightarrow> string" where
  "decimalString n = (if n < 0 then CHR ''-'' # natToString (nat (- n)) else natToString (nat n))"

text \<open>
  \<open>n + ''\<close> for a number \<open>n\<close>: the conversion \<open>Number::toString\<close>. For a positive double \<open>v\<close>
  it takes the decimal with the fewest significant digits that still rounds to \<open>v\<close> (the
  one nearest to \<open>v\<close> when there are two, the even one on a tie); \<open>shortestDecimal\<close> finds it by
  trying a power of ten first and then one digit after another. The decimal is printed
  in full when it is below \<open>10^21\<close>, and as digits with an exponent otherwise.
\<close>

fun searchShortest :: "nat \<Rightarrow> nat \<Rightarrow> nat \<Rightarrow> nat" where
  "searchShortest v n 0 = v"
| "searchShortest v n (Suc e) =
     (let p = 10 ^ Suc e;
          lo = (v div p) * p;
          hi = lo + p;
          okLo = (roundNat lo = Some v);
          okHi = (hi < 10 ^ n \<and> roundNat hi = Some v)
      in if okLo \<and> okHi
         then (if v - lo < hi - v then lo
               else if hi - v < v - lo then hi
               else if even (lo div p) then lo else hi)
         else if okLo then lo
         else if okHi then hi
         else searchShortest v n e)"

definition shortestDecimal :: "nat \<Rightarrow> nat" where
  "shortestDecimal v =
     (let n = length (natToString v)
      in if roundNat (10 ^ n) = Some v then 10 ^ n else searchShortest v n (n - 1))"

definition stripZeros :: "string \<Rightarrow> string" where
  "stripZeros ds = rev (dropWhile (\<lambda>c. c = CHR ''0'') (rev ds))"

definition exponentForm :: "nat \<Rightarrow> string" where
  "exponentForm m =
     (let ds = natToString m;
          s = stripZeros ds;
          e = ''e+'' @ natToString (length ds - 1)
      in if length s = 1 then s @ e else hd s # CHR ''.'' # tl s @ e)"

definition printNat :: "nat \<Rightarrow> string" where
  "printNat v =
     (let m = shortestDecimal v in if m < 10 ^ 21 then natToString m else exponentForm m)"

fun numberToString :: "number \<Rightarrow> string" where
  "numberToString PlusInfinity = ''Infinity''"
| "numberToString MinusInfinity = ''-Infinity''"
| "numberToString (Finite i) =
     (if i < 0 then CHR ''-'' # printNat (nat (- i)) else printNat (nat i))"

text \<open>The interface \<open>Invoice\<close> of the receive form: the cache of the invoice just created.\<close>

record LocalInvoice =
  payment_request :: string
  payment_hash :: string
  value_msat :: string
  timestamp :: string
  expiry :: string
  memo :: "string option"
  settled :: bool

record lr_state =
  lr_amount :: number
  lr_memo :: string
  lr_invoice :: "LocalInvoice option"
  lr_loading :: bool
  lr_error :: "string option"
  lr_successMessage :: "string option"
  lr_copyMessage :: bool
  lr_checkingPayment :: bool

definition lr_initial :: lr_state where
  "lr_initial =
     \<lparr> lr_amount = Finite 10, lr_memo = [], lr_invoice = None, lr_loading = False, lr_error = None,
       lr_successMessage = None, lr_copyMessage = False, lr_checkingPayment = False \<rparr>"

record AddInvoiceRequest =
  req_value_msat :: string
  req_memo :: string
  req_expiry :: string

record AddInvoiceResponse =
  resp_payment_request :: string
  resp_r_hash :: string

definition addInvoiceRequest :: "lr_state \<Rightarrow> AddInvoiceRequest" where
  "addInvoiceRequest st =
     \<lparr> req_value_msat = numberToString (timesThousand (lr_amount st)),
       req_memo = (if lr_memo st = [] then ''Lightning Payment'' else lr_memo st),
       req_expiry = ''3600'' \<rparr>"

text \<open>
  \<open>createInvoice\<close>. \<open>addInvoice\<close> is the node client's call, which may throw; \<open>now\<close> is
  \<open>Date.now()\<close>. The result is the state after the handler and the calls of
  \<open>eventBus.emit\<close> it made, in order.
\<close>

definition createInvoice ::
  "(AddInvoiceRequest \<Rightarrow> js_error + AddInvoiceResponse) \<Rightarrow> int \<Rightarrow> lr_state
     \<Rightarrow> lr_state \<times> (AppEvent \<times> LocalInvoice) list" where
  "createInvoice addInvoice now st =
     (case addInvoice (addInvoiceRequest st) of
        Inl err \<Rightarrow>
          (st \<lparr> lr_error := Some ''Failed to create invoice. Please check your node connection.'',
                lr_loading := False \<rparr>, [])
      | Inr newInvoice \<Rightarrow>
          (let formattedInvoice =
                 \<lparr> payment_request = resp_payment_request newInvoice,
                   payment_hash = resp_r_hash newInvoice,
                   value_msat = numberToString (timesThousand (lr_amount st)),
                   timestamp = numberToString (Finite (now div 1000)),
                   expiry = ''3600'',
                   memo = Some (if lr_memo st = [] then ''Lightning Payment'' else lr_memo st),
                   settled = False \<rparr>
           in (st \<lparr> lr_error := None, lr_invoice := Some formattedInvoice, lr_loading := False \<rparr>,
               [(invoice_created, formattedInvoice)])))"

text \<open>
  The earlier version of the form (\<open>part_001\<close>): the hash is hex-encoded with
  \<open>Buffer.from(r_hash).toString('hex')\<close>, here the parameter \<open>toHex\<close>, and nothing is emitted.
\<close>

definition createInvoice_part_001 ::
  "(AddInvoiceRequest \<Rightarrow> js_error + AddInvoiceResponse) \<Rightarrow> (string \<Rightarrow> string) \<Rightarrow> int \<Rightarrow> lr_state
     \<Rightarrow> lr_state" where
  "createInvoice_part_001 addInvoice toHex now st =
     (case addInvoice (addInvoiceRequest st) of
        Inl err \<Rightarrow>
          st \<lparr> lr_error := Some ''Failed to create invoice. Please check your node connection.'',
               lr_loading := False \<rparr>
      | Inr newInvoice \<Rightarrow>
          st \<lparr> lr_error := None,
               lr_invoice := Some
                 \<lparr> payment_request = resp_payment_request newInvoice,
                   payment_hash = toHex (resp_r_hash newInvoice),
                   value_msat = numberToString (timesThousand (lr_amount st)),
                   timestamp = numberToString (Finite (now div 1000)),
                   expiry = ''3600'',
                   memo = Some (if lr_memo st = [] then ''Lightning Payment'' else lr_memo st),
                   settled = False \<rparr>,
               lr_loading := False \<rparr>)"

text \<open>
  \<open>checkInvoiceStatus\<close>. \<open>lookup\<close> is the outcome of
  \<open>await lnd.lookupInvoiceV2(invoice.payment_hash)\<close>: a throw, or the \<open>settled\<close> flag of the
  invoice the node returned. The timers that later clear the success message and
  \<open>checkingPayment\<close> are not part of the handler's result.
\<close>

definition checkInvoiceStatus ::
  "(js_error + bool) \<Rightarrow> lr_state \<Rightarrow> lr_state \<times> (AppEvent \<times> LocalInvoice) list" where
  "checkInvoiceStatus lookup st =
     (case lr_invoice st of
        None \<Rightarrow> (st, [])
      | Some invoice \<Rightarrow>
          (case lookup of
             Inl err \<Rightarrow>
               (st \<lparr> lr_checkingPayment := True, lr_error := Some ''Failed to check payment status.'',
                     lr_loading := False \<rparr>, [])
           | Inr isSettledNow \<Rightarrow>
               (let wasSettledBefore = settled invoice;
                    updatedInvoiceState = invoice \<lparr> settled := isSettledNow \<rparr>;
                    st1 = st \<lparr> lr_checkingPayment := True, lr_invoice := Some updatedInvoiceState \<rparr>
                in if \<not> wasSettledBefore \<and> isSettledNow
                   then (st1 \<lparr> lr_successMessage := Some ''Payment received!'', lr_loading := False \<rparr>,
                         [(transaction_new, updatedInvoiceState)])
                   else if \<not> isSettledNow
                   then (st1 \<lparr> lr_successMessage :=
                                 Some ''Payment not detected yet. Please try again in a moment.'',
                               lr_loading := False \<rparr>, [])
                   else (st1 \<lparr> lr_loading := False \<rparr>, []))))"

text \<open>A sequence of checks, one lookup outcome per call; the emissions are collected.\<close>

fun checkAll :: "(js_error + bool) list \<Rightarrow> lr_state \<Rightarrow> lr_state \<times> (AppEvent \<times> LocalInvoice) list" where
  "checkAll [] st = (st, [])"
| "checkAll (lookup # rest) st =
     (let (st1, out1) = checkInvoiceStatus lookup st;
          (st2, out2) = checkAll rest st1
      in (st2, out1 @ out2))"

definition notifications :: "(AppEvent \<times> LocalInvoice) list \<Rightarrow> nat" where
  "notifications out = length (filter (\<lambda>e. fst e = transaction_new) out)"

text \<open>The node never reports the invoice unsettled after having reported it settled.\<close>

fun neverReverts :: "(js_error + bool) list \<Rightarrow> bool" where
  "neverReverts [] = True"
| "neverReverts (Inr True # rest) = (Inr False \<notin> set rest \<and> neverReverts rest)"
| "neverReverts (lookup # rest) = neverReverts rest"

section \<open>The send form (LightningSend.tsx)\<close>

subsection \<open>Parsed JSON\<close>

text \<open>
  Truthiness, \<open>typeof v === 'object'\<close> and the property reads \<open>v.result\<close>, \<open>v.status\<close>,
  \<open>v.failure_reason\<close> on a parsed value that is not \<open>null\<close>. In an object with a repeated
  key \<open>JSON.parse\<close> keeps the last one; arrays and primitives have none of the three
  properties, so the read gives \<open>undefined\<close> (\<open>None\<close>).
\<close>

fun truthyJ :: "json \<Rightarrow> bool" where
  "truthyJ JNull = False"
| "truthyJ (JBool b) = b"
| "truthyJ (JNum n) = (n \<noteq> 0)"
| "truthyJ (JStr s) = (s \<noteq> [])"
| "truthyJ (JArr xs) = True"
| "truthyJ (JObj kvs) = True"

fun isObject :: "json \<Rightarrow> bool" where
  "isObject JNull = True"
| "isObject (JArr xs) = True"
| "isObject (JObj kvs) = True"
| "isObject v = False"

fun getProp :: "json \<Rightarrow> string \<Rightarrow> json option" where
  "getProp (JObj kvs) k = map_of (rev kvs) k"
| "getProp v k = None"

definition truthyProp :: "json \<Rightarrow> string \<Rightarrow> bool" where
  "truthyProp v k = (case getProp v k of None \<Rightarrow> False | Some x \<Rightarrow> truthyJ x)"

subsection \<open>Strings\<close>

text \<open>
  \<open>s.split(c)\<close> for a one-character separator, and \<open>s.trim()\<close>, which strips white
  space and line terminators: of the characters below 256 these are tab, line feed,
  vertical tab, form feed, carriage return, space and the no-break space.
\<close>

fun splitOn :: "char \<Rightarrow> string \<Rightarrow> string list" where
  "splitOn c [] = [[]]"
| "splitOn c (x # xs) =
     (if x = c then [] # splitOn c xs
      else (case splitOn c xs of [] \<Rightarrow> [[x]] | y # ys \<Rightarrow> (x # y) # ys))"

definition isWhiteSpace :: "char \<Rightarrow> bool" where
  "isWhiteSpace c = (c \<in> {CHR 0x09, CHR 0x0A, CHR 0x0B, CHR 0x0C, CHR 0x0D, CHR 0x20, CHR 0xA0})"

definition trim :: "string \<Rightarrow> string" where
  "trim s = rev (dropWhile isWhiteSpace (rev (dropWhile isWhiteSpace s)))"

text \<open>
  For stating what is kept of a stream: a newline-delimited text is its lines joined by
  line feeds, and a line is non-empty when it has a character that is not white space.
\<close>

fun joinLines :: "string list \<Rightarrow> string" where
  "joinLines [] = []"
| "joinLines [l] = l"
| "joinLines (l # ls) = l @ CHR 0x0A # joinLines ls"

definition nonBlank :: "string \<Rightarrow> bool" where
  "nonBlank s = (\<exists>c \<in> set s. \<not> isWhiteSpace c)"

subsection \<open>Component state and handlers\<close>

record ls_state =
  paymentRequest :: string
  paymentResult :: "json option"
  ls_loading :: bool
  ls_error :: "string option"
  rawResponse :: string

definition ls_initial :: ls_state where
  "ls_initial =
     \<lparr> paymentRequest = [], paymentResult = None, ls_loading = False, ls_error = None,
       rawResponse = [] \<rparr>"

text \<open>\<open>setError(msg); setLoading(false)\<close>\<close>

definition failWith :: "string \<Rightarrow> ls_state \<Rightarrow> ls_state" where
  "failWith msg st = st \<lparr> ls_error := Some msg, ls_loading := False \<rparr>"

text \<open>
  A block that may throw gives the state it reached and the exception, if any; \<open>catching\<close>
  is \<open>try { block } catch { setError(msg); setLoading(false) }\<close>.
\<close>

definition catching :: "string \<Rightarrow> ls_state \<times> js_error option \<Rightarrow> ls_state" where
  "catching msg r = (case r of (st, None) \<Rightarrow> st | (st, Some err) \<Rightarrow> failWith msg st)"

text \<open>
  \<open>handlePaymentUpdate\<close>. Destructuring \<open>null\<close> throws a \<open>TypeError\<close> (after
  \<open>setPaymentResult\<close>); any other value is read without throwing.
\<close>

definition handlePaymentUpdate :: "js_runtime \<Rightarrow> json \<Rightarrow> ls_state \<Rightarrow> ls_state \<times> js_error option" where
  "handlePaymentUpdate js paymentData st =
     (let st1 = st \<lparr> paymentResult := Some paymentData \<rparr>
      in if paymentData = JNull then (st1, Some (JsError ''TypeError''))
         else (case getProp paymentData ''result'' of
                 None \<Rightarrow> (st1, None)
               | Some result \<Rightarrow>
                   if \<not> truthyJ result then (st1, None)
                   else (let status = getProp result ''status''
                         in if status = Some (JStr ''SUCCEEDED'')
                            then (st1 \<lparr> ls_loading := False, ls_error := None \<rparr>, None)
                            else if status = Some (JStr ''FAILED'')
                            then (st1 \<lparr> ls_loading := False,
                                        ls_error := Some (''Payment failed: '' @
                                          (if truthyProp result ''failure_reason''
                                           then String js (getProp result ''failure_reason'')
                                           else ''Unknown error'')) \<rparr>, None)
                            else if status = Some (JStr ''IN_FLIGHT'')
                            then (st1, None)
                            else (st1 \<lparr> ls_loading := False,
                                        ls_error := Some (''Unknown payment status: '' @ String js status) \<rparr>,
                                  None))))"

text \<open>The non-empty lines of a streamed response, in order.\<close>

definition jsonStrings :: "string \<Rightarrow> string list" where
  "jsonStrings responseData = filter (\<lambda>s. trim s \<noteq> []) (splitOn CHR 0x0A responseData)"

text \<open>\<open>processPaymentResponse\<close>: \<open>JSON.parse\<close> returning \<open>None\<close> is its \<open>SyntaxError\<close>.\<close>

definition processPaymentResponse :: "js_runtime \<Rightarrow> string \<Rightarrow> ls_state \<Rightarrow> ls_state" where
  "processPaymentResponse js raw st =
     (case JSON_parse js raw of
        None \<Rightarrow> failWith ''Failed to process payment response'' st
      | Some responseData \<Rightarrow>
          if truthyJ responseData \<and> isObject responseData \<and> truthyProp responseData ''result''
          then catching ''Failed to process payment response'' (handlePaymentUpdate js responseData st)
          else (case responseData of
                  JStr text \<Rightarrow>
                    if length (jsonStrings text) = 0
                    then failWith ''No valid payment response found'' st
                    else (let lastJsonString = last (jsonStrings text)
                          in case JSON_parse js lastJsonString of
                               None \<Rightarrow> failWith ''Unable to parse payment response'' st
                             | Some paymentData \<Rightarrow>
                                 if \<not> truthyJ paymentData \<or> \<not> truthyProp paymentData ''result''
                                 then failWith ''Invalid payment response format'' st
                                 else catching ''Unable to parse payment response''
                                        (handlePaymentUpdate js paymentData st))
                | _ \<Rightarrow> failWith ''Unrecognized payment response format'' st))"

text \<open>The effect on \<open>[rawResponse]\<close>.\<close>

definition rawResponseEffect :: "js_runtime \<Rightarrow> ls_state \<Rightarrow> ls_state" where
  "rawResponseEffect js st =
     (if rawResponse st = [] then st else processPaymentResponse js (rawResponse st) st)"

text \<open>
  \<open>sendPayment\<close>. \<open>sendPaymentV2\<close> is the node client's call on the payment request: it
  throws, or returns the value that is then stringified.
\<close>

definition sendPayment :: "js_runtime \<Rightarrow> (string \<Rightarrow> js_error + json) \<Rightarrow> ls_state \<Rightarrow> ls_state" where
  "sendPayment js sendPaymentV2 st =
     (if paymentRequest st = [] \<or> trim (paymentRequest st) = []
      then st \<lparr> ls_error := Some ''Please enter a valid lightning invoice'' \<rparr>
      else (let st1 = st \<lparr> ls_loading := True, ls_error := None, paymentResult := None,
                           rawResponse := [] \<rparr>
            in case sendPaymentV2 (paymentRequest st) of
                 Inl err \<Rightarrow>
                   st1 \<lparr> ls_error := Some ''Failed to send payment. Please check your invoice and node connection.'',
                         ls_loading := False \<rparr>
               | Inr result \<Rightarrow> st1 \<lparr> rawResponse := JSON_stringify js result \<rparr>))"

section \<open>Concrete inputs for the scenarios\<close>

text \<open>
  Reading a decimal numeral: the longest prefix of digits after an optional minus sign,
  \<open>NaN\<close> when there is no digit. On a string that starts with a digit or a minus sign
  (and is not a \<open>0x\<close> literal) this is what \<open>parseInt\<close> returns, and on a string of digits
  also what \<open>Number\<close> returns.
\<close>

definition isDigit :: "char \<Rightarrow> bool" where
  "isDigit c = (48 \<le> (of_char c :: nat) \<and> (of_char c :: nat) \<le> 57)"

definition digitsValue :: "string \<Rightarrow> nat" where
  "digitsValue ds = foldl (\<lambda>acc c. 10 * acc + ((of_char c :: nat) - 48)) 0 ds"

definition readDigits :: "string \<Rightarrow> nat option" where
  "readDigits s = (let ds = takeWhile isDigit s in if ds = [] then None else Some (digitsValue ds))"

definition readDecimal :: "string \<Rightarrow> int option" where
  "readDecimal s =
     (case s of
        [] \<Rightarrow> None
      | c # r \<Rightarrow> (if c = CHR ''-'' then map_option (\<lambda>n. - int n) (readDigits r)
                  else map_option int (readDigits s)))"

text \<open>
  The two lines of the streamed payment of the scenario, and what they parse to. The stream
  has an empty line between them and ends with a line of blanks and a line feed.
\<close>

definition inFlightLine :: string where
  \<open>inFlightLine = ''{"result":{"status":"IN_FLIGHT"}}''\<close>

definition succeededLine :: string where
  \<open>succeededLine = ''{"result":{"status":"SUCCEEDED"}}''\<close>

definition inFlightRecord :: json where
  "inFlightRecord = JObj [(''result'', JObj [(''status'', JStr ''IN_FLIGHT'')])]"

definition succeededRecord :: json where
  "succeededRecord = JObj [(''result'', JObj [(''status'', JStr ''SUCCEEDED'')])]"

definition paymentLines :: "string list" where
  "paymentLines = [inFlightLine, [], succeededLine, ''  '', []]"

definition paymentStream :: string where
  "paymentStream = joinLines paymentLines"

definition brokenStream :: string where
  "brokenStream = inFlightLine @ [CHR 0x0A] @ ''{result''"

definition noResultStream :: string where
  "noResultStream = inFlightLine @ [CHR 0x0A] @ ''{}''"

text \<open>
  \<open>JSON.stringify\<close> of a string of printable ASCII characters and line feeds, and the
  answers of \<open>JSON.parse\<close> on the texts above. The scenario runtime is used on these
  texts and on decimal numerals only.
\<close>

fun escapeChars :: "string \<Rightarrow> string" where
  "escapeChars [] = []"
| "escapeChars (c # cs) =
     (if c = CHR 0x22 then CHR 0x5C # CHR 0x22 # escapeChars cs
      else if c = CHR 0x5C then CHR 0x5C # CHR 0x5C # escapeChars cs
      else if c = CHR 0x0A then CHR 0x5C # CHR ''n'' # escapeChars cs
      else c # escapeChars cs)"

definition quoted :: "string \<Rightarrow> string" where
  "quoted s = CHR 0x22 # escapeChars s @ [CHR 0x22]"

definition scenario_parse :: "string \<Rightarrow> json option" where
  "scenario_parse text =
     (if text = quoted paymentStream then Some (JStr paymentStream)
      else if text = quoted brokenStream then Some (JStr brokenStream)
      else if text = quoted noResultStream then Some (JStr noResultStream)
      else if text = inFlightLine then Some inFlightRecord
      else if text = succeededLine then Some succeededRecord
      else if text = ''{}'' then Some (JObj [])
      else None)"

text \<open>
  A stable sort by insertion, the \<open>Array_sort\<close> of the scenario runtime. It sorts as
  specified (proved below), and on a list on which the comparison function is consistent
  a stable sort has one possible result, so this is the arrangement every engine returns
  there; the scenarios sort such lists only.
\<close>

fun insertSorted :: "('a \<Rightarrow> 'a \<Rightarrow> int option) \<Rightarrow> 'a \<Rightarrow> 'a list \<Rightarrow> 'a list" where
  "insertSorted compareFn x [] = [x]"
| "insertSorted compareFn x (y # ys) =
     (if sortCompare compareFn x y \<le> 0
      then x # y # ys
      else y # insertSorted compareFn x ys)"

definition sortBy :: "('a \<Rightarrow> 'a \<Rightarrow> int option) \<Rightarrow> 'a list \<Rightarrow> 'a list" where
  "sortBy compareFn xs = foldr (insertSorted compareFn) xs []"

definition scenario_js :: js_runtime where
  "scenario_js =
     \<lparr> parseInt = readDecimal,
       Number = (\<lambda>s. map_option of_int (readDecimal s)),
       JSON_parse = scenario_parse,
       JSON_stringify = (\<lambda>v. case v of JStr s \<Rightarrow> quoted s | _ \<Rightarrow> ''{}''),
       String = (\<lambda>v. case v of Some (JStr s) \<Rightarrow> s | _ \<Rightarrow> ''undefined''),
       Array_sort = sortBy \<rparr>"

text \<open>Sample node data: one payment and two invoices, with a clock one hour and one second
  after the open invoice was created.\<close>

definition samplePayment :: Payment where
  "samplePayment =
     \<lparr> p_payment_hash = ''a1'', p_value_msat = ''1500'', p_fee_msat = ''0'',
       p_creation_date = ''1700000100'', p_path = None, p_status = ''SUCCEEDED'',
       p_payment_request = None, p_htlcs = None \<rparr>"

definition openInvoice :: Invoice where
  "openInvoice =
     \<lparr> i_r_hash = ''b2'', i_value_msat = Some ''10000'', i_value = Some ''10'', i_memo = Some ''test'',
       i_state = ''OPEN'', i_settle_date = ''0'', i_payment_request = ''lnbc1'',
       i_expiry = None, i_creation_date = Some ''1700000000'' \<rparr>"

definition settledInvoice :: Invoice where
  "settledInvoice =
     \<lparr> i_r_hash = ''c3'', i_value_msat = Some ''2000'', i_value = Some ''2'', i_memo = None,
       i_state = ''SETTLED'', i_settle_date = ''1700000200'', i_payment_request = ''lnbc2'',
       i_expiry = Some ''60'', i_creation_date = Some ''1700000050'' \<rparr>"


definition scenario_invoices :: "bool \<Rightarrow> js_error + Invoice response" where
  "scenario_invoices pending_only =
     (if pending_only then Inr (Response (Some [openInvoice]))
      else Inr (Response (Some [settledInvoice])))"

definition scenario_decode :: "string \<Rightarrow> js_error + string option" where
  "scenario_decode payReq = Inr None"

definition scenario_node :: lnd_node where
  "scenario_node =
     \<lparr> listPayments = Inr (Response (Some [samplePayment])),
       listInvoices = scenario_invoices,
       decodePayReq = scenario_decode \<rparr>"

text \<open>
  A node that lists the sample payment and one whose \<open>creation_date\<close> is not a number,
  and no invoice.
\<close>

definition badPayment :: Payment where
  "badPayment = samplePayment \<lparr> p_payment_hash := ''d4'', p_creation_date := ''bad'' \<rparr>"

definition noInvoices :: "bool \<Rightarrow> js_error + Invoice response" where
  "noInvoices pending_only = Inr (Response (Some []))"

definition badNode :: lnd_node where
  "badNode =
     \<lparr> listPayments = Inr (Response (Some [samplePayment, badPayment])),
       listInvoices = noInvoices,
       decodePayReq = scenario_decode \<rparr>"

definition scenario_clock :: clock where
  "scenario_clock =
     \<lparr> nowMs = 1700003601000, startOfToday = 1699999200000, weekAgo = 1699398801000,
       monthAgo = 1697325201000 \<rparr>"

text \<open>The three sample entries as the history lists them, and a state that filters on \<open>sent\<close>.\<close>

definition paymentEntry :: Transaction where
  "paymentEntry = paymentToTransaction scenario_js scenario_decode samplePayment"

definition badEntry :: Transaction where
  "badEntry = paymentToTransaction scenario_js scenario_decode badPayment"

definition openEntry :: Transaction where
  "openEntry = invoiceToTransaction scenario_js 1700003601 openInvoice"

definition settledEntry :: Transaction where
  "settledEntry = invoiceToTransaction scenario_js 1700003601 settledInvoice"

definition sentOnly :: th_state where
  "sentOnly = th_initial \<lparr> filters := \<lparr> filter_type = [''sent''], filter_status = [''all''],
                                        timeRange = ''all'' \<rparr> \<rparr>"

definition connectedState :: th_state where
  "connectedState = th_initial \<lparr> client := True \<rparr>"

text \<open>
  What pagination keeps true: the page count is \<open>max(1, ceil(length / pageSize))\<close> of the
  filtered list, and the current page lies between 1 and the page count.
\<close>

definition paging :: "int \<Rightarrow> th_state \<Rightarrow> bool" where
  "paging pageSize st =
     (totalPages st = max 1 \<lceil>(of_nat (length (filteredTransactions st)) :: rat) / of_int pageSize\<rceil> \<and>
      1 \<le> currentPage st \<and> currentPage st \<le> totalPages st)"

text \<open>The receive scenario: amount 10, memo \<open>test\<close>, and a node that answers \<open>addInvoice\<close>.\<close>

definition scenario_addInvoice :: "AddInvoiceRequest \<Rightarrow> js_error + AddInvoiceResponse" where
  "scenario_addInvoice request = Inr \<lparr> resp_payment_request = ''lnbc100n1'', resp_r_hash = ''9f8e'' \<rparr>"

definition receiveForm :: lr_state where
  "receiveForm = lr_initial \<lparr> lr_amount := Finite 10, lr_memo := ''test'' \<rparr>"

definition invoiceCreated :: lr_state where
  "invoiceCreated = fst (createInvoice scenario_addInvoice 1700000000000 receiveForm)"

text \<open>The form with two large amounts typed in.\<close>

definition largeForm :: lr_state where
  "largeForm = receiveForm \<lparr> lr_amount := Finite 1000000000000000000 \<rparr>"

definition typedForm :: lr_state where
  "typedForm = receiveForm \<lparr> lr_amount := Finite 9007199254740971 \<rparr>"

text \<open>
  The send scenario: a form holding an invoice, a node whose payment call returns the
  two-line stream, and one whose call throws.
\<close>

definition sendForm :: ls_state where
  "sendForm = ls_initial \<lparr> paymentRequest := ''lnbc100n1'' \<rparr>"

definition sending :: ls_state where
  "sending = sendForm \<lparr> ls_loading := True \<rparr>"

definition streamingSend :: "string \<Rightarrow> js_error + json" where
  "streamingSend payReq = Inr (JStr paymentStream)"

definition failingSend :: "string \<Rightarrow> js_error + json" where
  "failingSend payReq = Inl (JsError ''connection refused'')"

text \<open>
  The bus scenario: two subscribers of \<open>transaction:new\<close>; the first throws, the second
  records the length of its argument in the world, a list of numbers.
\<close>

definition throwingCallback :: "(string, nat list) EventCallback" where
  "throwingCallback = (1, \<lambda>args w. (w, Some (JsError ''handler failed'')))"

definition recordingCallback :: "(string, nat list) EventCallback" where
  "recordingCallback = (2, \<lambda>args w. (w @ [length args], None))"

definition scenario_bus :: "(string, nat list) EventBus" where
  "scenario_bus = on (on newEventBus transaction_new throwingCallback) transaction_new recordingCallback"

section \<open>Properties of the transaction history\<close>

subsection \<open>Amounts\<close>

lemma mSatsToSats_quotient:
  "Number js v = Some (of_int m) \<Longrightarrow> mSatsToSats js v = Some (of_int m / 1000)"
  by (simp add: mSatsToSats_def)

lemma quotient_is_floor_iff:
  "((of_int m :: rat) / 1000 = of_int (m div 1000)) = (1000 dvd m)"
proof
  assume h: "(of_int m :: rat) / 1000 = of_int (m div 1000)"
  then have "(of_int m :: rat) = of_int (m div 1000 * 1000)" by simp
  then have "m = m div 1000 * 1000" using of_int_eq_iff by blast
  then show "1000 dvd m" by (metis dvd_triv_right)
next
  assume "1000 dvd m"
  then obtain k where "m = 1000 * k" by (auto simp: dvd_def)
  then show "(of_int m :: rat) / 1000 = of_int (m div 1000)" by simp
qed

lemma readDecimal_1500: "readDecimal ''1500'' = Some 1500"
  by (simp add: readDecimal_def readDigits_def isDigit_def digitsValue_def)

lemma readDecimal_10000: "readDecimal ''10000'' = Some 10000"
  by (simp add: readDecimal_def readDigits_def isDigit_def digitsValue_def)

text \<open>
  C1, as stated, fails: the amount is not truncated. A payment of 1500 millisatoshi is
  listed with the amount 1.5, not \<open>floor(1500 / 1000) = 1\<close>.
\<close>

theorem floor_amount_counterexample:
  "p_value_msat samplePayment = ''1500'' \<and>
   tx_amount (paymentToTransaction scenario_js scenario_decode samplePayment) = Some (3 / 2) \<and>
   tx_amount (paymentToTransaction scenario_js scenario_decode samplePayment)
     \<noteq> Some (of_int \<lfloor>(1500 :: rat) / 1000\<rfloor>)"
proof -
  have fl: "\<lfloor>(1500 :: rat) / 1000\<rfloor> = 1"
    by (simp add: floor_eq_iff)
  show ?thesis
    unfolding fl
    by (simp add: paymentToTransaction_def Let_def mSatsToSats_def scenario_js_def
          samplePayment_def readDecimal_1500)
qed

text \<open>
  C1, amended: for every listed payment, and every listed invoice that carries
  \<open>value_msat\<close>, the amount of the view model is the exact quotient of the millisatoshi
  value by 1000 (the division of \<open>mSatsToSats\<close>, with no truncation); it equals
  \<open>floor(value_msat / 1000)\<close> exactly when the millisatoshi value is a multiple of 1000.
\<close>

theorem amount_is_exact_quotient:
  assumes "Number js v = Some (of_int m)"
  shows "mSatsToSats js v = Some (of_int m / 1000) \<and>
         ((mSatsToSats js v = Some (of_int (m div 1000))) = (1000 dvd m)) \<and>
         (p_value_msat payment = v \<longrightarrow>
            tx_amount (paymentToTransaction js decode payment) = Some (of_int m / 1000)) \<and>
         (truthy (i_value_msat invoice) = Some v \<longrightarrow>
            tx_amount (invoiceToTransaction js currentTime invoice) = Some (of_int m / 1000))"
proof -
  have q: "mSatsToSats js v = Some (of_int m / 1000)"
    using assms by (rule mSatsToSats_quotient)
  have fl: "(mSatsToSats js v = Some (of_int (m div 1000))) = (1000 dvd m)"
    unfolding q using quotient_is_floor_iff [of m] by simp
  have pay: "p_value_msat payment = v \<longrightarrow>
       tx_amount (paymentToTransaction js decode payment) = Some (of_int m / 1000)"
    using q by (simp add: paymentToTransaction_def Let_def)
  have inv: "truthy (i_value_msat invoice) = Some v \<longrightarrow>
       tx_amount (invoiceToTransaction js currentTime invoice) = Some (of_int m / 1000)"
    using q by (simp add: invoiceToTransaction_def invoiceAmount_def Let_def)
  from q fl pay inv show ?thesis by blast
qed

theorem amount_is_exact_quotient_witness:
  "mSatsToSats scenario_js ''1500'' = Some (3 / 2) \<and>
   tx_amount (paymentToTransaction scenario_js scenario_decode samplePayment) = Some (3 / 2) \<and>
   mSatsToSats scenario_js ''10000'' = Some (of_int (10000 div 1000)) \<and>
   tx_amount (invoiceToTransaction scenario_js 1700003601 openInvoice) = Some 10"
proof -
  have n1: "Number scenario_js ''1500'' = Some (of_int 1500)"
    by (simp add: scenario_js_def readDecimal_1500)
  have n2: "Number scenario_js ''10000'' = Some (of_int 10000)"
    by (simp add: scenario_js_def readDecimal_10000)
  have p: "p_value_msat samplePayment = ''1500''" by (simp add: samplePayment_def)
  have i: "truthy (i_value_msat openInvoice) = Some ''10000''"
    by (simp add: openInvoice_def truthy_def)
  show ?thesis
    using amount_is_exact_quotient [OF n1, of samplePayment scenario_decode openInvoice 0]
          amount_is_exact_quotient [OF n2, of samplePayment scenario_decode openInvoice 1700003601]
          p i
    by simp
qed

subsection \<open>Expiry\<close>










subsection \<open>Filtering by type\<close>

lemma typeFilter_subset: "set (typeFilter f txs) \<subseteq> set txs"
  by (auto simp: typeFilter_def)

lemma typeFilter_member:
  "''all'' \<notin> set (filter_type f) \<Longrightarrow> tx \<in> set (typeFilter f txs) \<Longrightarrow>
     kind_name (tx_type tx) \<in> set (filter_type f)"
  by (auto simp: typeFilter_def)

lemma statusFilter_subset: "set (statusFilter f txs) \<subseteq> set txs"
  by (auto simp: statusFilter_def)

lemma timeFilter_subset: "set (timeFilter clk f txs) \<subseteq> set txs"
  by (auto simp: timeFilter_def)

lemma filtered_applyFilters:
  "filteredTransactions (applyFilters pageSize clk txs st) =
     timeFilter clk (filters st) (statusFilter (filters st) (typeFilter (filters st) txs))"
  by (simp add: applyFilters_def Let_def)

lemma filtered_subset_typeFilter:
  "set (filteredTransactions (applyFilters pageSize clk txs st)) \<subseteq> set (typeFilter (filters st) txs)"
  unfolding filtered_applyFilters
  using timeFilter_subset statusFilter_subset by blast

text \<open>
  C5: whatever list is filtered, when the selected types are \<open>['sent']\<close> the filtered list
  holds no \<open>received\<close> entry; more generally, when \<open>'all'\<close> is not selected, the type of
  every retained entry is one of the selected types; and when \<open>'all'\<close> is selected the type
  filter removes nothing, so the filtered list is what the status and time filters leave.
\<close>

theorem type_filter_excludes:
  "(filter_type (filters st) = [''sent''] \<longrightarrow>
      (\<forall>tx \<in> set (filteredTransactions (applyFilters pageSize clk txs st)). tx_type tx \<noteq> received)) \<and>
   (''all'' \<notin> set (filter_type (filters st)) \<longrightarrow>
      (\<forall>tx \<in> set (filteredTransactions (applyFilters pageSize clk txs st)).
         kind_name (tx_type tx) \<in> set (filter_type (filters st)))) \<and>
   (''all'' \<in> set (filter_type (filters st)) \<longrightarrow>
      typeFilter (filters st) txs = txs \<and>
      filteredTransactions (applyFilters pageSize clk txs st) =
        timeFilter clk (filters st) (statusFilter (filters st) txs))"
proof -
  have member: "''all'' \<notin> set (filter_type (filters st)) \<longrightarrow>
      (\<forall>tx \<in> set (filteredTransactions (applyFilters pageSize clk txs st)).
         kind_name (tx_type tx) \<in> set (filter_type (filters st)))"
    using filtered_subset_typeFilter typeFilter_member by blast
  have only_sent: "filter_type (filters st) = [''sent''] \<longrightarrow>
      (\<forall>tx \<in> set (filteredTransactions (applyFilters pageSize clk txs st)). tx_type tx \<noteq> received)"
  proof (intro impI ballI)
    fix tx
    assume f: "filter_type (filters st) = [''sent'']"
      and tx: "tx \<in> set (filteredTransactions (applyFilters pageSize clk txs st))"
    from f have "''all'' \<notin> set (filter_type (filters st))" by simp
    with member tx have "kind_name (tx_type tx) \<in> set (filter_type (filters st))" by blast
    with f have "kind_name (tx_type tx) = ''sent''" by simp
    then show "tx_type tx \<noteq> received" by (cases "tx_type tx") simp_all
  qed
  have all: "''all'' \<in> set (filter_type (filters st)) \<longrightarrow>
      typeFilter (filters st) txs = txs \<and>
      filteredTransactions (applyFilters pageSize clk txs st) =
        timeFilter clk (filters st) (statusFilter (filters st) txs)"
    by (simp add: filtered_applyFilters typeFilter_def)
  from only_sent member all show ?thesis by blast
qed

lemma readDecimal_dates:
  "readDecimal ''1700000100'' = Some 1700000100"
  "readDecimal ''1700000200'' = Some 1700000200"
  "readDecimal ''1700000000'' = Some 1700000000"
  by (simp_all add: readDecimal_def readDigits_def isDigit_def digitsValue_def)

lemma sample_dates:
  "tx_date paymentEntry = Some 1700000100000"
  "tx_date settledEntry = Some 1700000200000"
  "tx_date openEntry = Some 1700000000000"
  by (simp_all add: paymentEntry_def settledEntry_def openEntry_def paymentToTransaction_def
        invoiceToTransaction_def creationDate_def orElse_def truthy_def Let_def
        samplePayment_def settledInvoice_def openInvoice_def scenario_js_def
        readDecimal_dates times1000_def newDate_def)

lemma sample_types:
  "tx_type paymentEntry = sent" "tx_type settledEntry = received" "tx_type openEntry = received"
  by (simp_all add: paymentEntry_def settledEntry_def openEntry_def paymentToTransaction_def
        invoiceToTransaction_def Let_def)

theorem type_filter_excludes_witness:
  "filteredTransactions (applyFilters 5 scenario_clock [settledEntry, paymentEntry, openEntry] sentOnly)
     = [paymentEntry] \<and>
   tx_type paymentEntry \<noteq> received \<and>
   typeFilter (filters th_initial) [settledEntry, paymentEntry, openEntry]
     = [settledEntry, paymentEntry, openEntry]"
proof -
  have f: "filter_type (filters sentOnly) = [''sent'']"
    by (simp add: sentOnly_def)
  have a: "''all'' \<in> set (filter_type (filters th_initial))"
    by (simp add: th_initial_def)
  have ev: "filteredTransactions
              (applyFilters 5 scenario_clock [settledEntry, paymentEntry, openEntry] sentOnly)
            = [paymentEntry]"
    by (simp add: filtered_applyFilters sentOnly_def typeFilter_def statusFilter_def
          timeFilter_def sample_types)
  show ?thesis
    using type_filter_excludes [of sentOnly 5 scenario_clock "[settledEntry, paymentEntry, openEntry]"]
          type_filter_excludes [of th_initial 5 scenario_clock "[settledEntry, paymentEntry, openEntry]"]
          f a ev
    by (simp add: sample_types)
qed

subsection \<open>Order of the reconciled list\<close>

lemma mset_insertSorted: "mset (insertSorted c x ys) = add_mset x (mset ys)"
  by (induction ys) auto

lemma sortBy_Cons: "sortBy c (x # xs) = insertSorted c x (sortBy c xs)"
  by (simp add: sortBy_def)

lemma mset_sortBy: "mset (sortBy c xs) = mset xs"
  by (induction xs) (simp_all add: sortBy_def mset_insertSorted)

lemma set_insertSorted: "set (insertSorted c x ys) = insert x (set ys)"
  by (induction ys) auto

lemma set_sortBy: "set (sortBy c xs) = set xs"
  using mset_sortBy [of c xs] by (metis set_mset_mset)

lemma consistent_subset:
  "consistentComparator c S \<Longrightarrow> T \<subseteq> S \<Longrightarrow> consistentComparator c T"
  unfolding consistentComparator_def by blast

lemma consistent_flip:
  "consistentComparator c S \<Longrightarrow> a \<in> S \<Longrightarrow> b \<in> S \<Longrightarrow>
     \<not> sortCompare c a b \<le> 0 \<Longrightarrow> sortCompare c b a \<le> 0"
  unfolding consistentComparator_def by fastforce

lemma consistent_trans:
  "consistentComparator c S \<Longrightarrow> a \<in> S \<Longrightarrow> b \<in> S \<Longrightarrow> z \<in> S \<Longrightarrow>
     sortCompare c a b \<le> 0 \<Longrightarrow> sortCompare c b z \<le> 0 \<Longrightarrow> sortCompare c a z \<le> 0"
  unfolding consistentComparator_def by blast

lemma sorted_insertSorted:
  assumes "consistentComparator c (insert x (set ys))"
    and "sorted_wrt (\<lambda>a b. sortCompare c a b \<le> 0) ys"
  shows "sorted_wrt (\<lambda>a b. sortCompare c a b \<le> 0) (insertSorted c x ys)"
  using assms
proof (induction ys)
  case Nil
  then show ?case by simp
next
  case (Cons y ys)
  let ?S = "insert x (set (y # ys))"
  have cons: "consistentComparator c ?S" using Cons.prems(1) .
  show ?case
  proof (cases "sortCompare c x y \<le> 0")
    case True
    have "\<forall>z \<in> set ys. sortCompare c x z \<le> 0"
    proof
      fix z assume z: "z \<in> set ys"
      with Cons.prems(2) have "sortCompare c y z \<le> 0" by simp
      with True z show "sortCompare c x z \<le> 0"
        using consistent_trans [OF cons, of x y z] by simp
    qed
    with True Cons.prems(2) show ?thesis by simp
  next
    case False
    then have yx: "sortCompare c y x \<le> 0"
      using consistent_flip [OF cons, of x y] by simp
    have sub: "consistentComparator c (insert x (set ys))"
      using cons by (rule consistent_subset) auto
    have rest: "sorted_wrt (\<lambda>a b. sortCompare c a b \<le> 0) (insertSorted c x ys)"
      using Cons.IH [OF sub] Cons.prems(2) by simp
    have "\<forall>z \<in> set (insertSorted c x ys). sortCompare c y z \<le> 0"
      using Cons.prems(2) yx by (auto simp: set_insertSorted)
    with False rest show ?thesis by simp
  qed
qed

lemma sorted_sortBy:
  "consistentComparator c (set xs) \<Longrightarrow>
     sorted_wrt (\<lambda>a b. sortCompare c a b \<le> 0) (sortBy c xs)"
proof (induction xs)
  case Nil
  then show ?case by (simp add: sortBy_def)
next
  case (Cons x xs)
  have "consistentComparator c (set xs)"
    using Cons.prems by (rule consistent_subset) auto
  then have "sorted_wrt (\<lambda>a b. sortCompare c a b \<le> 0) (sortBy c xs)"
    by (rule Cons.IH)
  moreover have "consistentComparator c (insert x (set (sortBy c xs)))"
    using Cons.prems by (simp add: set_sortBy)
  ultimately show ?case
    by (simp add: sortBy_Cons sorted_insertSorted)
qed

lemma scenario_sorts: "sortsAsSpecified scenario_js"
  by (simp add: sortsAsSpecified_def scenario_js_def mset_sortBy sorted_sortBy)

lemma sortCompare_dates:
  "tx_date a = Some ta \<Longrightarrow> tx_date b = Some tb \<Longrightarrow> sortCompare compareDates a b = tb - ta"
  by (simp add: sortCompare_def compareDates_def)

lemma consistent_compareDates:
  assumes "\<forall>x \<in> S. tx_date x \<noteq> None"
  shows "consistentComparator compareDates S"
  unfolding consistentComparator_def
proof (intro ballI conjI impI)
  fix a b assume a: "a \<in> S" and b: "b \<in> S"
  from assms a obtain ta where ta: "tx_date a = Some ta" by auto
  from assms b obtain tb where tb: "tx_date b = Some tb" by auto
  from ta tb show "(sortCompare compareDates a b < 0) = (0 < sortCompare compareDates b a)"
    by (auto simp: sortCompare_dates)
next
  fix a b z assume a: "a \<in> S" and b: "b \<in> S" and z: "z \<in> S"
    and le: "sortCompare compareDates a b \<le> 0 \<and> sortCompare compareDates b z \<le> 0"
  from assms a obtain ta where ta: "tx_date a = Some ta" by auto
  from assms b obtain tb where tb: "tx_date b = Some tb" by auto
  from assms z obtain tz where tz: "tx_date z = Some tz" by auto
  from le ta tb tz show "sortCompare compareDates a z \<le> 0"
    by (auto simp: sortCompare_dates)
qed

lemma descending_dates:
  assumes "\<forall>x \<in> set xs. tx_date x \<noteq> None"
    and "sorted_wrt (\<lambda>a b. sortCompare compareDates a b \<le> 0) xs"
  shows "sorted_wrt dateGe xs"
proof -
  have "\<And>a b. a \<in> set xs \<Longrightarrow> b \<in> set xs \<Longrightarrow> sortCompare compareDates a b \<le> 0 \<Longrightarrow> dateGe a b"
  proof -
    fix a b assume a: "a \<in> set xs" and b: "b \<in> set xs"
      and le: "sortCompare compareDates a b \<le> 0"
    from assms(1) a obtain ta where ta: "tx_date a = Some ta" by auto
    from assms(1) b obtain tb where tb: "tx_date b = Some tb" by auto
    from le ta tb show "dateGe a b" by (simp add: sortCompare_dates dateGe_def)
  qed
  with assms(2) show ?thesis
    by (rule_tac sorted_wrt_mono_rel [of xs "\<lambda>a b. sortCompare compareDates a b \<le> 0"]) auto
qed

lemma sorted_wrt_adjacent:
  "sorted_wrt P xs \<Longrightarrow> Suc i < length xs \<Longrightarrow> P (xs ! i) (xs ! Suc i)"
  by (simp add: sorted_wrt_nth_less)

lemma fetchTransactions_lists:
  assumes "listPayments node = Inr (Response (Some payments))"
    and "listInvoices node False = Inr (Response (Some settledInvoices))"
    and "listInvoices node True = Inr (Response (Some pendingInvoices))"
  shows "fetchTransactions js node clk =
           Inr (Array_sort js compareDates
                  (map (paymentToTransaction js (decodePayReq node)) payments @
                   processInvoices js (settledInvoices @ pendingInvoices) (nowMs clk div 1000)))"
  using assms
  by (simp add: fetchTransactions_def combinedInvoices_def allTransactions_def sentPayments_def
        receivedPayments_def processInvoices_def)

lemma transactions_applyFilters [simp]:
  "transactions (applyFilters pageSize clk txs st) = transactions st"
  by (simp add: applyFilters_def Let_def)

lemma transactions_loadTransactions:
  "client st \<Longrightarrow> fetchTransactions js node clk = Inr out \<Longrightarrow>
     transactions (loadTransactions pageSize js node clk st) = out"
  by (simp add: loadTransactions_def)

lemma readDecimal_bad: "readDecimal ''bad'' = None"
  by (simp add: readDecimal_def readDigits_def isDigit_def)

lemma bad_entry_date: "tx_date badEntry = None"
  by (simp add: badEntry_def paymentToTransaction_def Let_def badPayment_def scenario_js_def
        readDecimal_bad times1000_def newDate_def)

lemma scenario_fetch:
  "fetchTransactions scenario_js scenario_node scenario_clock
     = Inr [settledEntry, paymentEntry, openEntry]"
proof -
  have *: "sortBy compareDates [paymentEntry, settledEntry, openEntry]
             = [settledEntry, paymentEntry, openEntry]"
    by (simp add: sortBy_def sortCompare_def compareDates_def sample_dates)
  have "fetchTransactions scenario_js scenario_node scenario_clock =
          Inr (Array_sort scenario_js compareDates [paymentEntry, settledEntry, openEntry])"
    by (simp add: fetchTransactions_def scenario_node_def scenario_invoices_def combinedInvoices_def
          allTransactions_def sentPayments_def receivedPayments_def processInvoices_def
          scenario_clock_def paymentEntry_def settledEntry_def openEntry_def)
  then show ?thesis by (simp add: scenario_js_def * )
qed

lemma bad_fetch:
  "fetchTransactions scenario_js badNode scenario_clock = Inr [paymentEntry, badEntry]"
proof -
  have *: "sortBy compareDates [paymentEntry, badEntry] = [paymentEntry, badEntry]"
    by (simp add: sortBy_def sortCompare_def compareDates_def sample_dates bad_entry_date)
  have "fetchTransactions scenario_js badNode scenario_clock =
          Inr (Array_sort scenario_js compareDates [paymentEntry, badEntry])"
    by (simp add: fetchTransactions_def badNode_def noInvoices_def combinedInvoices_def
          allTransactions_def sentPayments_def receivedPayments_def paymentEntry_def badEntry_def)
  then show ?thesis by (simp add: scenario_js_def * )
qed

text \<open>
  C7, as stated, fails for some raw lists: a payment whose \<open>creation_date\<close> is not a number
  is mapped to an entry with an Invalid Date, which is neither greater than or equal to any
  other date nor the other way round. With the sample payment and such a payment the stored
  list has two entries, and in neither order is the first date greater than or equal to
  the second.
\<close>

theorem invalid_date_counterexample:
  "transactions (loadTransactions 5 scenario_js badNode scenario_clock connectedState)
     = [paymentEntry, badEntry] \<and>
   tx_date badEntry = None \<and>
   \<not> dateGe paymentEntry badEntry \<and> \<not> dateGe badEntry paymentEntry \<and>
   \<not> sorted_wrt dateGe
       (transactions (loadTransactions 5 scenario_js badNode scenario_clock connectedState))"
proof -
  have l: "transactions (loadTransactions 5 scenario_js badNode scenario_clock connectedState)
     = [paymentEntry, badEntry]"
    by (simp add: loadTransactions_def connectedState_def bad_fetch)
  show ?thesis
    unfolding l by (simp add: dateGe_def sample_dates bad_entry_date)
qed

text \<open>
  C7, amended: with an engine whose sort is as the language specifies, whatever payment
  list and invoice lists the node returns, the list that \<open>loadTransactions\<close> stores is a
  permutation of the mapped payments together with the mapped invoices (settled and pending
  concatenated); and when the date of every entry is a valid date, that is, when every date
  field read parses as a number, it is in descending order of date: each entry's date is
  greater than or equal to the date of the entry after it.
\<close>

theorem loadTransactions_sorted_permutation:
  assumes "sortsAsSpecified js"
    and "client st"
    and "listPayments node = Inr (Response (Some payments))"
    and "listInvoices node False = Inr (Response (Some settledInvoices))"
    and "listInvoices node True = Inr (Response (Some pendingInvoices))"
  shows "mset (transactions (loadTransactions pageSize js node clk st)) =
           mset (map (paymentToTransaction js (decodePayReq node)) payments) +
           mset (processInvoices js (settledInvoices @ pendingInvoices) (nowMs clk div 1000)) \<and>
         ((\<forall>tx \<in> set (transactions (loadTransactions pageSize js node clk st)). tx_date tx \<noteq> None) \<longrightarrow>
            sorted_wrt dateGe (transactions (loadTransactions pageSize js node clk st)) \<and>
            (\<forall>i. Suc i < length (transactions (loadTransactions pageSize js node clk st)) \<longrightarrow>
                 dateGe (transactions (loadTransactions pageSize js node clk st) ! i)
                        (transactions (loadTransactions pageSize js node clk st) ! Suc i)))"
proof -
  let ?mapped = "map (paymentToTransaction js (decodePayReq node)) payments @
                 processInvoices js (settledInvoices @ pendingInvoices) (nowMs clk div 1000)"
  let ?out = "transactions (loadTransactions pageSize js node clk st)"
  have out: "?out = Array_sort js compareDates ?mapped"
    using transactions_loadTransactions [OF assms(2) fetchTransactions_lists [OF assms(3-5)]] .
  have ms: "mset (Array_sort js compareDates ?mapped) = mset ?mapped"
    using assms(1) unfolding sortsAsSpecified_def by blast
  have perm: "mset ?out = mset (map (paymentToTransaction js (decodePayReq node)) payments) +
           mset (processInvoices js (settledInvoices @ pendingInvoices) (nowMs clk div 1000))"
    unfolding out ms by simp
  have ord: "(\<forall>tx \<in> set ?out. tx_date tx \<noteq> None) \<longrightarrow>
       sorted_wrt dateGe ?out \<and> (\<forall>i. Suc i < length ?out \<longrightarrow> dateGe (?out ! i) (?out ! Suc i))"
  proof
    assume valid: "\<forall>tx \<in> set ?out. tx_date tx \<noteq> None"
    have "set ?out = set ?mapped"
      unfolding out using ms by (metis set_mset_mset)
    with valid have "\<forall>tx \<in> set ?mapped. tx_date tx \<noteq> None" by simp
    then have "consistentComparator compareDates (set ?mapped)"
      by (rule consistent_compareDates)
    then have "sorted_wrt (\<lambda>a b. sortCompare compareDates a b \<le> 0) ?out"
      unfolding out using assms(1) unfolding sortsAsSpecified_def by blast
    with valid have s: "sorted_wrt dateGe ?out"
      by (rule descending_dates)
    then show "sorted_wrt dateGe ?out \<and> (\<forall>i. Suc i < length ?out \<longrightarrow> dateGe (?out ! i) (?out ! Suc i))"
      using sorted_wrt_adjacent by blast
  qed
  from perm ord show ?thesis by blast
qed

lemma scenario_loaded:
  "transactions (loadTransactions 1 scenario_js scenario_node scenario_clock connectedState)
     = [settledEntry, paymentEntry, openEntry]"
  by (simp add: loadTransactions_def connectedState_def scenario_fetch)

theorem loadTransactions_sorted_permutation_witness:
  "sortsAsSpecified scenario_js \<and>
   transactions (loadTransactions 1 scenario_js scenario_node scenario_clock connectedState)
     = [settledEntry, paymentEntry, openEntry] \<and>
   map tx_date [settledEntry, paymentEntry, openEntry]
     = [Some 1700000200000, Some 1700000100000, Some 1700000000000] \<and>
   sorted_wrt dateGe (transactions (loadTransactions 1 scenario_js scenario_node scenario_clock connectedState)) \<and>
   mset (transactions (loadTransactions 1 scenario_js scenario_node scenario_clock connectedState))
     = mset [paymentEntry, settledEntry, openEntry]"
proof -
  have c: "client connectedState" by (simp add: connectedState_def)
  have p: "listPayments scenario_node = Inr (Response (Some [samplePayment]))"
    by (simp add: scenario_node_def)
  have s: "listInvoices scenario_node False = Inr (Response (Some [settledInvoice]))"
    by (simp add: scenario_node_def scenario_invoices_def)
  have o: "listInvoices scenario_node True = Inr (Response (Some [openInvoice]))"
    by (simp add: scenario_node_def scenario_invoices_def)
  have m: "map (paymentToTransaction scenario_js (decodePayReq scenario_node)) [samplePayment] = [paymentEntry]"
    by (simp add: paymentEntry_def scenario_node_def)
  have r: "processInvoices scenario_js ([settledInvoice] @ [openInvoice]) (nowMs scenario_clock div 1000)
             = [settledEntry, openEntry]"
    by (simp add: processInvoices_def settledEntry_def openEntry_def scenario_clock_def)
  show ?thesis
    using loadTransactions_sorted_permutation [OF scenario_sorts c p s o, of 1 scenario_clock]
          scenario_sorts
    unfolding m r scenario_loaded
    by (simp add: sample_dates)
qed

subsection \<open>Pagination\<close>

lemma slice_page:
  assumes "0 \<le> start" and "0 \<le> n"
  shows "slice xs start (start + n) = take (nat n) (drop (nat start) xs)"
proof (cases "start \<ge> int (length xs)")
  case True
  then show ?thesis using assms by (simp add: slice_def Let_def min_def)
next
  case False
  show ?thesis
  proof (cases "start + n \<le> int (length xs)")
    case True
    with False assms show ?thesis by (simp add: slice_def Let_def min_def)
  next
    case over: False
    with False assms have "nat n \<ge> length (drop (nat start) xs)" by simp
    then have "take (nat n) (drop (nat start) xs) = drop (nat start) xs" by simp
    moreover have "slice xs start (start + n) = drop (nat start) xs"
      using False over assms by (simp add: slice_def Let_def min_def)
    ultimately show ?thesis by simp
  qed
qed

lemma paging_applyFilters: "paging pageSize (applyFilters pageSize clk txs st)"
  by (simp add: paging_def applyFilters_def Let_def max_def)

lemma paging_fields:
  "filteredTransactions st' = filteredTransactions st \<Longrightarrow> totalPages st' = totalPages st \<Longrightarrow>
   currentPage st' = currentPage st \<Longrightarrow> paging pageSize st \<Longrightarrow> paging pageSize st'"
  by (simp add: paging_def)

lemma paging_reachable: "reachable pageSize st \<Longrightarrow> paging pageSize st"
proof (induction rule: reachable.induct)
  case r_initial
  show ?case by (simp add: paging_def th_initial_def)
next
  case (r_client st)
  then show ?case by (simp add: paging_def)
next
  case (r_failed st)
  then show ?case by (simp add: paging_def)
next
  case (r_load st js node clk)
  show ?case
  proof (cases "client st")
    case False
    with r_load show ?thesis by (simp add: loadTransactions_def)
  next
    case True
    show ?thesis
    proof (cases "fetchTransactions js node clk")
      case (Inl err)
      with True r_load.IH show ?thesis by (simp add: loadTransactions_def paging_def)
    next
      case (Inr allTxs)
      have "paging pageSize (applyFilters pageSize clk allTxs (st \<lparr> th_error := None, transactions := allTxs \<rparr>))"
        by (rule paging_applyFilters)
      with True Inr show ?thesis by (simp add: loadTransactions_def paging_def)
    qed
  qed
next
  case (r_update st clk u)
  have "paging pageSize (applyFilters pageSize clk (transactions st) st)"
    by (rule paging_applyFilters)
  then show ?case by (simp add: updateFilter_def paging_def)
next
  case (r_toggle st clk k v)
  have "\<And>u. paging pageSize (updateFilter pageSize clk u st)"
    using paging_applyFilters [of pageSize clk "transactions st" st]
    by (simp add: updateFilter_def paging_def)
  then show ?case by (cases k) simp_all
next
  case (r_effect st clk)
  then show ?case by (simp add: filtersEffect_def paging_applyFilters)
next
  case (r_page st page)
  then show ?case by (auto simp: handlePageChange_def paging_def)
qed

text \<open>
  C10: in every state the component can reach with a positive page size, the page count is
  \<open>max(1, ceil(length / pageSize))\<close> of the filtered list; the page shown is the slice of
  the filtered list that starts at \<open>(currentPage - 1) * pageSize\<close> and has at most
  \<open>pageSize\<close> entries; \<open>handlePageChange\<close> leaves the current page as it is for a page
  below 1 or above the page count; and \<open>applyFilters\<close> sets the current page to 1.
\<close>

theorem pagination_invariant:
  assumes "0 < pageSize" and "reachable pageSize st"
  shows "totalPages st = max 1 \<lceil>(of_nat (length (filteredTransactions st)) :: rat) / of_int pageSize\<rceil> \<and>
         getPaginatedTransactions pageSize st =
           take (nat pageSize) (drop (nat ((currentPage st - 1) * pageSize)) (filteredTransactions st)) \<and>
         length (getPaginatedTransactions pageSize st) \<le> nat pageSize \<and>
         (page < 1 \<or> page > totalPages st \<longrightarrow> currentPage (handlePageChange page st) = currentPage st) \<and>
         currentPage (applyFilters pageSize clk txs st) = 1"
proof -
  have p: "paging pageSize st" using assms(2) by (rule paging_reachable)
  then have cp: "0 \<le> (currentPage st - 1) * pageSize" using assms(1) by (simp add: paging_def)
  have sl: "getPaginatedTransactions pageSize st =
           take (nat pageSize) (drop (nat ((currentPage st - 1) * pageSize)) (filteredTransactions st))"
    using slice_page [OF cp, of pageSize "filteredTransactions st"] assms(1)
    by (simp add: getPaginatedTransactions_def Let_def)
  have len: "length (getPaginatedTransactions pageSize st) \<le> nat pageSize"
    unfolding sl by simp
  have hp: "page < 1 \<or> page > totalPages st \<longrightarrow> currentPage (handlePageChange page st) = currentPage st"
    by (auto simp: handlePageChange_def)
  have reset: "currentPage (applyFilters pageSize clk txs st) = 1"
    by (simp add: applyFilters_def Let_def)
  from p sl len hp reset show ?thesis by (simp add: paging_def)
qed

lemma scenario_reachable:
  "reachable 1 (handlePageChange 2
      (loadTransactions 1 scenario_js scenario_node scenario_clock connectedState))"
  unfolding connectedState_def
  by (intro r_page r_load r_client r_initial)

lemma scenario_filtered:
  "filteredTransactions (loadTransactions 1 scenario_js scenario_node scenario_clock connectedState)
     = [settledEntry, paymentEntry, openEntry]"
  by (simp add: loadTransactions_def connectedState_def scenario_fetch filtered_applyFilters
        th_initial_def typeFilter_def statusFilter_def timeFilter_def)

theorem pagination_invariant_witness:
  "(0 :: int) < 1 \<and>
   totalPages (handlePageChange 2
      (loadTransactions 1 scenario_js scenario_node scenario_clock connectedState)) = 3 \<and>
   getPaginatedTransactions 1 (handlePageChange 2
      (loadTransactions 1 scenario_js scenario_node scenario_clock connectedState)) = [paymentEntry] \<and>
   currentPage (handlePageChange 7 (handlePageChange 2
      (loadTransactions 1 scenario_js scenario_node scenario_clock connectedState))) = 2"
proof -
  let ?loaded = "loadTransactions 1 scenario_js scenario_node scenario_clock connectedState"
  have pos: "(0 :: int) < 1" by simp
  have f: "filteredTransactions (handlePageChange 2 ?loaded) = [settledEntry, paymentEntry, openEntry]"
    by (simp add: handlePageChange_def scenario_filtered)
  have t: "totalPages (handlePageChange 2 ?loaded) = 3"
    using pagination_invariant [OF pos scenario_reachable] by (simp add: f)
  have tl: "totalPages ?loaded = 3"
    using t by (simp add: handlePageChange_def split: if_splits)
  have cl: "currentPage ?loaded = 1"
    by (simp add: loadTransactions_def connectedState_def applyFilters_def Let_def th_initial_def
          split: sum.splits)
  have c: "currentPage (handlePageChange 2 ?loaded) = 2"
    by (simp add: handlePageChange_def tl)
  show ?thesis
    using pagination_invariant [OF pos scenario_reachable, of 7 scenario_clock "[]"] f t c
    by simp
qed

section \<open>Properties of the receive form\<close>

subsection \<open>The created invoice\<close>

lemma of_char_digitChar: "d < 10 \<Longrightarrow> (of_char (digitChar d) :: nat) = 48 + d"
  by (simp add: digitChar_def)

lemma isDigit_digitChar: "d < 10 \<Longrightarrow> isDigit (digitChar d)"
  by (simp add: isDigit_def of_char_digitChar)

lemma natToString_digits: "\<forall>c \<in> set (natToString n). isDigit c"
proof (induction n rule: natToString.induct)
  case (1 n)
  show ?case
  proof (cases "n < 10")
    case True
    then show ?thesis by (simp add: natToString.simps [of n] isDigit_digitChar)
  next
    case False
    with 1 show ?thesis by (simp add: natToString.simps [of n] isDigit_digitChar)
  qed
qed

lemma natToString_not_empty: "natToString n \<noteq> []"
  by (simp add: natToString.simps [of n])

lemma digitsValue_snoc:
  "digitsValue (ds @ [c]) = 10 * digitsValue ds + ((of_char c :: nat) - 48)"
  by (simp add: digitsValue_def)

lemma digitsValue_natToString: "digitsValue (natToString n) = n"
proof (induction n rule: natToString.induct)
  case (1 n)
  show ?case
  proof (cases "n < 10")
    case True
    then show ?thesis
      by (simp add: natToString.simps [of n] digitsValue_def of_char_digitChar)
  next
    case False
    with 1 have "digitsValue (natToString (n div 10)) = n div 10" by simp
    with False show ?thesis
      by (simp add: natToString.simps [of n] digitsValue_snoc of_char_digitChar)
  qed
qed

lemma readDigits_natToString: "readDigits (natToString n) = Some n"
proof -
  have tw: "takeWhile isDigit (natToString n) = natToString n"
    using natToString_digits by (simp add: takeWhile_eq_all_conv)
  show ?thesis
    unfolding readDigits_def Let_def tw
    by (simp add: natToString_not_empty digitsValue_natToString)
qed

lemma minus_not_digit: "\<not> isDigit CHR ''-''"
  by (simp add: isDigit_def)

lemma readDecimal_decimalString: "readDecimal (decimalString n) = Some n"
proof (cases "n < 0")
  case True
  then show ?thesis
    by (simp add: decimalString_def readDecimal_def readDigits_natToString)
next
  case False
  obtain c r where s: "natToString (nat n) = c # r"
    using natToString_not_empty [of "nat n"] by (cases "natToString (nat n)") auto
  have "isDigit c" using natToString_digits [of "nat n"] s by simp
  then have "c \<noteq> CHR ''-''" using minus_not_digit by auto
  with False s show ?thesis
    using readDigits_natToString [of "nat n"]
    by (simp add: decimalString_def readDecimal_def)
qed

text \<open>Below \<open>2^53\<close> every natural number is a double, and no other number rounds to it.\<close>

lemma bitLength_zero: "bitLength 0 = 0"
  by (simp add: bitLength.simps [of 0])

lemma bitLength_step: "m \<noteq> 0 \<Longrightarrow> bitLength m = Suc (bitLength (m div 2))"
  by (simp add: bitLength.simps [of m])

lemma bitLength_le: "m < 2 ^ k \<Longrightarrow> bitLength m \<le> k"
proof (induction k arbitrary: m)
  case 0
  then show ?case by (simp add: bitLength_zero)
next
  case (Suc k)
  show ?case
  proof (cases "m = 0")
    case True
    then show ?thesis by (simp add: bitLength_zero)
  next
    case False
    from Suc.prems have "m div 2 < 2 ^ k" by simp
    then have "bitLength (m div 2) \<le> k" by (rule Suc.IH)
    with False show ?thesis by (simp add: bitLength_step)
  qed
qed

lemma bitLength_gt: "2 ^ k \<le> m \<Longrightarrow> k < bitLength m"
proof (induction k arbitrary: m)
  case 0
  then have "m \<noteq> 0" by auto
  then show ?case by (simp add: bitLength_step)
next
  case (Suc k)
  from Suc.prems have "2 ^ k \<le> m div 2" by simp
  then have "k < bitLength (m div 2)" by (rule Suc.IH)
  moreover have "m \<noteq> 0"
  proof
    assume "m = 0"
    with Suc.prems show False by simp
  qed
  ultimately show ?case by (simp add: bitLength_step)
qed

lemma bitLength_lower: "0 < m \<Longrightarrow> 2 ^ (bitLength m - 1) \<le> m"
proof (induction m rule: bitLength.induct)
  case (1 m)
  from 1(2) have nz: "m \<noteq> 0" by simp
  have b: "bitLength m = Suc (bitLength (m div 2))"
    using nz by (rule bitLength_step)
  show ?case
  proof (cases "m div 2 = 0")
    case True
    then have "bitLength m = 1" by (simp add: b bitLength_zero)
    with 1(2) show ?thesis by simp
  next
    case False
    then have pos: "0 < m div 2" by simp
    have ih: "2 ^ (bitLength (m div 2) - 1) \<le> m div 2"
      using 1(1) [OF nz pos] .
    have "bitLength (m div 2) = Suc (bitLength (m div 2 div 2))"
      using False by (rule bitLength_step)
    then have "(2::nat) ^ (bitLength m - 1) = 2 * 2 ^ (bitLength (m div 2) - 1)"
      unfolding b by simp
    also have "\<dots> \<le> 2 * (m div 2)" using ih by simp
    also have "\<dots> \<le> m" by simp
    finally show ?thesis .
  qed
qed

lemma roundNat_small: "m < 2 ^ 53 \<Longrightarrow> roundNat m = Some m"
  using bitLength_le [of m 53] by (simp add: roundNat_def)

lemma roundNat_large:
  assumes "2 ^ 53 \<le> m" and "roundNat m = Some v"
  shows "2 ^ 53 \<le> v"
proof -
  have gt: "53 < bitLength m" using assms(1) by (rule bitLength_gt)
  define sh where "sh = bitLength m - 53"
  have sh: "bitLength m = 53 + sh" and shpos: "0 < sh"
    using gt by (simp_all add: sh_def)
  have shift: "bitLength m - 53 = sh" using sh by simp
  have large: "\<not> bitLength m \<le> 53" using sh shpos by simp
  have pos: "0 < m"
  proof (rule ccontr)
    assume "\<not> 0 < m"
    then have "m = 0" by simp
    with assms(1) show False by simp
  qed
  have e: "bitLength m - 1 = 52 + sh" using sh by simp
  have "(2::nat) ^ (52 + sh) \<le> m"
    using bitLength_lower [OF pos] unfolding e .
  then have low: "(2::nat) ^ 52 * 2 ^ sh \<le> m" by (simp only: power_add)
  have "((2::nat) ^ 52 * 2 ^ sh) div 2 ^ sh \<le> m div 2 ^ sh"
    using low by (rule div_le_mono)
  moreover have "((2::nat) ^ 52 * 2 ^ sh) div 2 ^ sh = 2 ^ 52"
    by (rule nonzero_mult_div_cancel_right) simp
  ultimately have q: "(2::nat) ^ 52 \<le> m div 2 ^ sh" by (simp only:)
  define q' where "q' = (if m mod 2 ^ sh > 2 ^ (sh - 1) \<or>
                            (m mod 2 ^ sh = 2 ^ (sh - 1) \<and> odd (m div 2 ^ sh))
                         then m div 2 ^ sh + 1 else m div 2 ^ sh)"
  have "m div 2 ^ sh \<le> q'" by (simp add: q'_def)
  with q have q'ge: "(2::nat) ^ 52 \<le> q'" by (rule order_trans)
  have r: "roundNat m = (if q' * 2 ^ sh \<ge> 2 ^ 1024 then None else Some (q' * 2 ^ sh))"
    unfolding roundNat_def Let_def shift q'_def using large by (simp only: if_False)
  have v: "v = q' * 2 ^ sh"
    using assms(2) unfolding r by (cases "q' * 2 ^ sh \<ge> 2 ^ 1024") (simp_all only: if_True if_False option.inject option.distinct)
  have "(2::nat) ^ 1 \<le> 2 ^ sh"
    using shpos by (intro power_increasing) simp_all
  then have "(2::nat) ^ 52 * 2 ^ 1 \<le> 2 ^ 52 * 2 ^ sh"
    by (rule mult_le_mono2)
  moreover have "(2::nat) ^ 53 = 2 ^ 52 * 2 ^ 1" by (simp only: power_add [symmetric]) simp
  moreover have "(2::nat) ^ 52 * 2 ^ sh \<le> q' * 2 ^ sh"
    using q'ge by (rule mult_le_mono1)
  ultimately have "(2::nat) ^ 53 \<le> q' * 2 ^ sh" by (simp only: order_trans)
  then show ?thesis unfolding v .
qed

lemma rounds_to_small:
  assumes "v < 2 ^ 53" and "roundNat x = Some v"
  shows "x = v"
proof (cases "x < 2 ^ 53")
  case True
  with assms(2) show ?thesis by (simp add: roundNat_small)
next
  case False
  then have "2 ^ 53 \<le> x" by simp
  then have "2 ^ 53 \<le> v" using assms(2) by (rule roundNat_large)
  with assms(1) show ?thesis by simp
qed

lemma less_digits: "v < 10 ^ length (natToString v)"
proof (induction v rule: natToString.induct)
  case (1 n)
  show ?case
  proof (cases "n < 10")
    case True
    then show ?thesis by (simp add: natToString.simps [of n])
  next
    case False
    with 1 have "n div 10 < 10 ^ length (natToString (n div 10))" by simp
    then have "n < 10 * 10 ^ length (natToString (n div 10))" by simp
    with False show ?thesis by (simp add: natToString.simps [of n])
  qed
qed

lemma searchShortest_small: "v < 2 ^ 53 \<Longrightarrow> searchShortest v n e = v"
proof (induction e)
  case 0
  show ?case by simp
next
  case (Suc e)
  let ?p = "(10::nat) ^ Suc e"
  let ?lo = "(v div ?p) * ?p"
  have above: "v < ?lo + ?p"
    using dividend_less_times_div [of ?p v] by (simp add: algebra_simps)
  have hi: "roundNat (?lo + ?p) \<noteq> Some v"
  proof
    assume "roundNat (?lo + ?p) = Some v"
    with Suc.prems have "?lo + ?p = v" by (rule rounds_to_small)
    with above show False by simp
  qed
  have lo: "roundNat ?lo = Some v \<Longrightarrow> ?lo = v"
    using Suc.prems by (rule rounds_to_small)
  show ?case
    using hi lo Suc.IH [OF Suc.prems]
    by (auto simp: Let_def)
qed

lemma shortestDecimal_small: "v < 2 ^ 53 \<Longrightarrow> shortestDecimal v = v"
proof -
  assume small: "v < 2 ^ 53"
  have "roundNat (10 ^ length (natToString v)) \<noteq> Some v"
  proof
    assume "roundNat (10 ^ length (natToString v)) = Some v"
    with small have "10 ^ length (natToString v) = v" by (rule rounds_to_small)
    with less_digits [of v] show False by simp
  qed
  with small show ?thesis
    by (simp add: shortestDecimal_def Let_def searchShortest_small)
qed

lemma printNat_small: "v < 2 ^ 53 \<Longrightarrow> printNat v = natToString v"
proof -
  assume small: "v < 2 ^ 53"
  then have "v < 10 ^ 21" by simp
  with small show ?thesis by (simp add: printNat_def Let_def shortestDecimal_small)
qed

lemma numberToString_exact: "\<bar>i\<bar> < 2 ^ 53 \<Longrightarrow> numberToString (Finite i) = decimalString i"
proof -
  assume b: "\<bar>i\<bar> < 2 ^ 53"
  show ?thesis
  proof (cases "i < 0")
    case True
    with b have "nat (- i) < 2 ^ 53" by (simp add: nat_less_iff)
    with True show ?thesis by (simp add: decimalString_def printNat_small)
  next
    case False
    with b have "nat i < 2 ^ 53" by (simp add: nat_less_iff)
    with False show ?thesis by (simp add: decimalString_def printNat_small)
  qed
qed

lemma roundDouble_exact: "\<bar>i\<bar> < 2 ^ 53 \<Longrightarrow> roundDouble i = Finite i"
proof -
  assume b: "\<bar>i\<bar> < 2 ^ 53"
  show ?thesis
  proof (cases "i < 0")
    case True
    with b have "nat (- i) < 2 ^ 53" by (simp add: nat_less_iff)
    with True show ?thesis by (simp add: roundDouble_def roundNat_small)
  next
    case False
    with b have "nat i < 2 ^ 53" by (simp add: nat_less_iff)
    with False show ?thesis by (simp add: roundDouble_def roundNat_small)
  qed
qed

lemma millisatoshi_string:
  assumes "\<bar>a * 1000\<bar> < 2 ^ 53"
  shows "numberToString (timesThousand (Finite a)) = decimalString (a * 1000)"
proof -
  have "timesThousand (Finite a) = Finite (a * 1000)"
    using roundDouble_exact [OF assms] by simp
  then show ?thesis
    using numberToString_exact [OF assms] by (simp only:)
qed

text \<open>Evaluating the conversions on numerals.\<close>

lemma bitLength_eq: "2 ^ k \<le> m \<Longrightarrow> m < 2 ^ Suc k \<Longrightarrow> bitLength m = Suc k"
  using bitLength_gt [of k m] bitLength_le [of m "Suc k"] by simp

lemma roundNat_shift:
  assumes lower: "2 ^ (52 + sh) \<le> m" and upper: "m < 2 ^ (53 + sh)"
    and pos: "0 < sh" and bound: "sh < 900"
  shows "roundNat m =
           Some ((if m mod 2 ^ sh > 2 ^ (sh - 1) \<or> (m mod 2 ^ sh = 2 ^ (sh - 1) \<and> odd (m div 2 ^ sh))
                  then m div 2 ^ sh + 1 else m div 2 ^ sh) * 2 ^ sh)"
proof -
  have bl: "bitLength m = 53 + sh"
    using bitLength_eq [of "52 + sh" m] lower upper by simp
  have sh: "bitLength m - 53 = sh" using bl by simp
  have big: "\<not> bitLength m \<le> 53" using bl pos by simp
  have "m < 2 ^ 53 * 2 ^ sh" using upper by (simp only: power_add)
  then have q: "m div 2 ^ sh < 2 ^ 53" by (rule less_mult_imp_div_less)
  define rounded where
    "rounded = (if m mod 2 ^ sh > 2 ^ (sh - 1) \<or> (m mod 2 ^ sh = 2 ^ (sh - 1) \<and> odd (m div 2 ^ sh))
                then m div 2 ^ sh + 1 else m div 2 ^ sh)"
  have "rounded \<le> 2 ^ 53" using q by (simp add: rounded_def)
  then have "rounded * 2 ^ sh \<le> (2::nat) ^ 53 * 2 ^ sh" by (rule mult_le_mono1)
  also have "\<dots> = 2 ^ (53 + sh)" by (simp only: power_add)
  also have "\<dots> < (2::nat) ^ 1024"
  proof (rule power_strict_increasing)
    show "53 + sh < 1024" using bound by simp
    show "1 < (2::nat)" by simp
  qed
  finally have fits: "\<not> rounded * 2 ^ sh \<ge> 2 ^ 1024" by simp
  have "roundNat m = (if rounded * 2 ^ sh \<ge> 2 ^ 1024 then None else Some (rounded * 2 ^ sh))"
    unfolding roundNat_def Let_def sh rounded_def using big by (simp only: if_False)
  with fits show ?thesis unfolding rounded_def by (simp only: if_False)
qed

lemmas roundNat_63 = roundNat_shift [of 10, simplified]

lemmas roundNat_64 = roundNat_shift [of 11, simplified]

lemmas roundNat_70 = roundNat_shift [of 17, simplified]

lemmas roundNat_71 = roundNat_shift [of 18, simplified]

lemmas roundNat_74 = roundNat_shift [of 21, simplified]

lemma searchShortest_unfold:
  "0 < e \<Longrightarrow> searchShortest v n e =
     (let p = 10 ^ e;
          lo = (v div p) * p;
          hi = lo + p;
          okLo = (roundNat lo = Some v);
          okHi = (hi < 10 ^ n \<and> roundNat hi = Some v)
      in if okLo \<and> okHi
         then (if v - lo < hi - v then lo
               else if hi - v < v - lo then hi
               else if even (lo div p) then lo else hi)
         else if okLo then lo
         else if okHi then hi
         else searchShortest v n (e - 1))"
  by (cases e) (simp_all add: Let_def)

lemmas string_eval =
  natToString.simps digitChar_def char_of_def bit_Suc_0_iff decimalString_def

lemma ten_thousand: "decimalString 10000 = ''10000''"
  by (simp add: string_eval)

lemma large_product: "timesThousand (Finite 1000000000000000000) = Finite 1000000000000000000000"
  by (simp add: roundDouble_def roundNat_70)

lemma large_digits: "natToString 1000000000000000000000 = ''1000000000000000000000''"
  by (simp add: string_eval)

lemma large_shortest: "shortestDecimal 1000000000000000000000 = 1000000000000000000000"
  by (simp add: shortestDecimal_def large_digits searchShortest_unfold roundNat_70 roundNat_71
      roundNat_74 Let_def)

lemma one_e21: "numberToString (timesThousand (Finite 1000000000000000000)) = ''1e+21''"
  unfolding large_product
  by (simp add: printNat_def large_shortest exponentForm_def large_digits stripZeros_def
      string_eval)

lemma one_e21_decimal: "decimalString (1000000000000000000 * 1000) = ''1000000000000000000000''"
  by (simp add: string_eval)

lemma typed_product: "timesThousand (Finite 9007199254740971) = Finite 9007199254740970496"
  by (simp add: roundDouble_def roundNat_63)

lemma typed_digits: "length (natToString 9007199254740970496) = 19"
  by (simp add: string_eval)

lemma typed_search: "searchShortest 9007199254740970496 19 18 = 9007199254740970000"
  by (simp add: searchShortest_unfold roundNat_63 Let_def)

lemma typed_shortest: "shortestDecimal 9007199254740970496 = 9007199254740970000"
  by (simp add: shortestDecimal_def typed_digits typed_search roundNat_64)

lemma typed_amount:
  "numberToString (timesThousand (Finite 9007199254740971)) = ''9007199254740970000''"
  unfolding typed_product
  by (simp add: printNat_def typed_shortest string_eval)

lemma typed_amount_decimal: "decimalString (9007199254740971 * 1000) = ''9007199254740971000''"
  by (simp add: string_eval)

lemma stored_value_msat:
  "addInvoice (addInvoiceRequest st) = Inr newInvoice \<Longrightarrow>
     map_option value_msat (lr_invoice (fst (createInvoice addInvoice now st)))
       = Some (numberToString (timesThousand (lr_amount st)))"
  by (simp add: createInvoice_def Let_def)

text \<open>
  C6, as stated, fails for large amounts: the product \<open>amount * 1000\<close> is a double and is
  printed as one. With the amount \<open>10^18\<close> the invoice stores \<open>1e+21\<close>, and with the amount
  9007199254740971, whose product with 1000 is not a double, it stores
  \<open>9007199254740970000\<close>; neither is the decimal string of the amount times 1000.
\<close>

theorem large_amount_counterexample:
  "map_option value_msat (lr_invoice (fst (createInvoice scenario_addInvoice 1700000000000 largeForm)))
     = Some ''1e+21'' \<and>
   decimalString (1000000000000000000 * 1000) = ''1000000000000000000000'' \<and>
   map_option value_msat (lr_invoice (fst (createInvoice scenario_addInvoice 1700000000000 typedForm)))
     = Some ''9007199254740970000'' \<and>
   decimalString (9007199254740971 * 1000) = ''9007199254740971000''"
proof -
  have a: "scenario_addInvoice (addInvoiceRequest largeForm)
             = Inr \<lparr> resp_payment_request = ''lnbc100n1'', resp_r_hash = ''9f8e'' \<rparr>"
    by (simp add: scenario_addInvoice_def)
  have b: "scenario_addInvoice (addInvoiceRequest typedForm)
             = Inr \<lparr> resp_payment_request = ''lnbc100n1'', resp_r_hash = ''9f8e'' \<rparr>"
    by (simp add: scenario_addInvoice_def)
  have la: "lr_amount largeForm = Finite 1000000000000000000"
    by (simp add: largeForm_def)
  have ta: "lr_amount typedForm = Finite 9007199254740971"
    by (simp add: typedForm_def)
  show ?thesis
    unfolding stored_value_msat [of scenario_addInvoice largeForm _ 1700000000000, OF a]
      stored_value_msat [of scenario_addInvoice typedForm _ 1700000000000, OF b] la ta one_e21 typed_amount
      one_e21_decimal typed_amount_decimal
    by simp
qed

text \<open>
  C6, amended: for every integer amount \<open>A\<close> (in satoshis) held by the form whose product
  \<open>A * 1000\<close> is below \<open>2^53\<close> in absolute value, when the node accepts the request the
  invoice that \<open>createInvoice\<close> stores has \<open>value_msat\<close> equal to the decimal string of
  \<open>A * 1000\<close>, which reads back as the number \<open>A * 1000\<close>; the request sent to the node
  carries the same string, and the earlier version of the form (\<open>part_001\<close>) stores it too.
  For every amount the stored \<open>expiry\<close> is \<open>'3600'\<close> and \<open>settled\<close> is false.
\<close>

theorem createInvoice_millisatoshi:
  assumes "addInvoice (addInvoiceRequest st) = Inr newInvoice"
  shows "(lr_amount st = Finite a \<and> \<bar>a * 1000\<bar> < 2 ^ 53 \<longrightarrow>
            map_option value_msat (lr_invoice (fst (createInvoice addInvoice now st)))
              = Some (decimalString (a * 1000)) \<and>
            readDecimal (decimalString (a * 1000)) = Some (a * 1000) \<and>
            req_value_msat (addInvoiceRequest st) = decimalString (a * 1000) \<and>
            map_option value_msat (lr_invoice (createInvoice_part_001 addInvoice toHex now st))
              = Some (decimalString (a * 1000))) \<and>
         map_option expiry (lr_invoice (fst (createInvoice addInvoice now st))) = Some ''3600'' \<and>
         map_option settled (lr_invoice (fst (createInvoice addInvoice now st))) = Some False \<and>
         map_option expiry (lr_invoice (createInvoice_part_001 addInvoice toHex now st)) = Some ''3600'' \<and>
         map_option settled (lr_invoice (createInvoice_part_001 addInvoice toHex now st)) = Some False"
proof -
  have fixed: "map_option expiry (lr_invoice (fst (createInvoice addInvoice now st))) = Some ''3600'' \<and>
         map_option settled (lr_invoice (fst (createInvoice addInvoice now st))) = Some False \<and>
         map_option expiry (lr_invoice (createInvoice_part_001 addInvoice toHex now st)) = Some ''3600'' \<and>
         map_option settled (lr_invoice (createInvoice_part_001 addInvoice toHex now st)) = Some False"
    using assms by (simp add: createInvoice_def createInvoice_part_001_def Let_def)
  have msat: "lr_amount st = Finite a \<and> \<bar>a * 1000\<bar> < 2 ^ 53 \<longrightarrow>
            map_option value_msat (lr_invoice (fst (createInvoice addInvoice now st)))
              = Some (decimalString (a * 1000)) \<and>
            readDecimal (decimalString (a * 1000)) = Some (a * 1000) \<and>
            req_value_msat (addInvoiceRequest st) = decimalString (a * 1000) \<and>
            map_option value_msat (lr_invoice (createInvoice_part_001 addInvoice toHex now st))
              = Some (decimalString (a * 1000))"
  proof
    assume h: "lr_amount st = Finite a \<and> \<bar>a * 1000\<bar> < 2 ^ 53"
    then have s: "numberToString (timesThousand (lr_amount st)) = decimalString (a * 1000)"
      using millisatoshi_string [of a] by (simp only:)
    have v1: "map_option value_msat (lr_invoice (fst (createInvoice addInvoice now st)))
              = Some (decimalString (a * 1000))"
      using stored_value_msat [of addInvoice st newInvoice now, OF assms] s by (simp only:)
    have v2: "req_value_msat (addInvoiceRequest st) = decimalString (a * 1000)"
      using s by (simp add: addInvoiceRequest_def)
    have v3: "map_option value_msat (lr_invoice (createInvoice_part_001 addInvoice toHex now st))
              = Some (decimalString (a * 1000))"
      using assms s by (simp add: createInvoice_part_001_def)
    from v1 v2 v3 readDecimal_decimalString [of "a * 1000"]
    show "map_option value_msat (lr_invoice (fst (createInvoice addInvoice now st)))
              = Some (decimalString (a * 1000)) \<and>
            readDecimal (decimalString (a * 1000)) = Some (a * 1000) \<and>
            req_value_msat (addInvoiceRequest st) = decimalString (a * 1000) \<and>
            map_option value_msat (lr_invoice (createInvoice_part_001 addInvoice toHex now st))
              = Some (decimalString (a * 1000))"
      by blast
  qed
  from msat fixed show ?thesis by blast
qed

theorem createInvoice_millisatoshi_witness:
  "map_option value_msat (lr_invoice invoiceCreated) = Some ''10000'' \<and>
   readDecimal ''10000'' = Some 10000 \<and>
   map_option expiry (lr_invoice invoiceCreated) = Some ''3600'' \<and>
   map_option settled (lr_invoice invoiceCreated) = Some False"
proof -
  have a: "scenario_addInvoice (addInvoiceRequest receiveForm)
             = Inr \<lparr> resp_payment_request = ''lnbc100n1'', resp_r_hash = ''9f8e'' \<rparr>"
    by (simp add: scenario_addInvoice_def)
  have m: "lr_amount receiveForm = Finite 10 \<and> \<bar>(10::int) * 1000\<bar> < 2 ^ 53"
    by (simp add: receiveForm_def)
  have ten: "(10::int) * 1000 = 10000" by simp
  note created = createInvoice_millisatoshi
    [of scenario_addInvoice receiveForm _ 10 1700000000000 id, OF a]
  from created m
  have c: "map_option value_msat
             (lr_invoice (fst (createInvoice scenario_addInvoice 1700000000000 receiveForm)))
             = Some (decimalString (10 * 1000)) \<and>
           readDecimal (decimalString (10 * 1000)) = Some (10 * 1000)"
    by blast
  from created
  have f: "map_option expiry
             (lr_invoice (fst (createInvoice scenario_addInvoice 1700000000000 receiveForm)))
             = Some ''3600'' \<and>
           map_option settled
             (lr_invoice (fst (createInvoice scenario_addInvoice 1700000000000 receiveForm)))
             = Some False"
    by blast
  from c have c1: "map_option value_msat (lr_invoice invoiceCreated) = Some ''10000''"
    unfolding ten ten_thousand invoiceCreated_def by (rule conjunct1)
  from c have c2: "readDecimal ''10000'' = Some 10000"
    unfolding ten ten_thousand by (rule conjunct2)
  from f have f1: "map_option expiry (lr_invoice invoiceCreated) = Some ''3600''"
    unfolding invoiceCreated_def by (rule conjunct1)
  from f have f2: "map_option settled (lr_invoice invoiceCreated) = Some False"
    unfolding invoiceCreated_def by (rule conjunct2)
  from c1 c2 f1 f2 show ?thesis by (intro conjI)
qed

subsection \<open>The settlement notification\<close>

lemma checkInvoiceStatus_emits:
  "snd (checkInvoiceStatus lookup st) =
     (case lr_invoice st of
        None \<Rightarrow> []
      | Some invoice \<Rightarrow>
          if \<not> settled invoice \<and> lookup = Inr True
          then [(transaction_new, invoice \<lparr> settled := True \<rparr>)] else [])"
  by (auto simp: checkInvoiceStatus_def Let_def split: option.splits sum.splits)

lemma checkInvoiceStatus_invoice:
  "lr_invoice (fst (checkInvoiceStatus lookup st)) =
     (case lr_invoice st of
        None \<Rightarrow> None
      | Some invoice \<Rightarrow>
          (case lookup of Inl err \<Rightarrow> Some invoice
                        | Inr isSettledNow \<Rightarrow> Some (invoice \<lparr> settled := isSettledNow \<rparr>)))"
  by (auto simp: checkInvoiceStatus_def Let_def split: option.splits sum.splits)

lemma checkAll_Cons:
  "snd (checkAll (lookup # rest) st) =
     snd (checkInvoiceStatus lookup st) @ snd (checkAll rest (fst (checkInvoiceStatus lookup st)))"
  by (simp add: Let_def split: prod.splits)

lemma notifications_append: "notifications (xs @ ys) = notifications xs + notifications ys"
  by (simp add: notifications_def)

lemma notifications_step:
  "notifications (snd (checkInvoiceStatus lookup st)) =
     (case lr_invoice st of
        None \<Rightarrow> 0
      | Some invoice \<Rightarrow> if \<not> settled invoice \<and> lookup = Inr True then 1 else 0)"
  by (simp add: checkInvoiceStatus_emits notifications_def split: option.splits)

lemma settled_stays_silent:
  "lr_invoice st = Some invoice \<Longrightarrow> settled invoice \<Longrightarrow> Inr False \<notin> set lookups \<Longrightarrow>
     notifications (snd (checkAll lookups st)) = 0"
proof (induction lookups arbitrary: st invoice)
  case Nil
  then show ?case by (simp add: notifications_def)
next
  case (Cons lookup rest)
  have now: "notifications (snd (checkInvoiceStatus lookup st)) = 0"
    using Cons.prems by (simp add: notifications_step)
  obtain invoice' where inv': "lr_invoice (fst (checkInvoiceStatus lookup st)) = Some invoice'"
    and set': "settled invoice'"
    using Cons.prems
    by (cases lookup) (auto simp: checkInvoiceStatus_invoice)
  have "notifications (snd (checkAll rest (fst (checkInvoiceStatus lookup st)))) = 0"
    using Cons.IH [OF inv' set'] Cons.prems(3) by simp
  with now show ?case by (simp add: checkAll_Cons notifications_append del: checkAll.simps)
qed

lemma no_invoice_silent:
  "lr_invoice st = None \<Longrightarrow> notifications (snd (checkAll lookups st)) = 0"
proof (induction lookups arbitrary: st)
  case Nil
  then show ?case by (simp add: notifications_def)
next
  case (Cons lookup rest)
  have "lr_invoice (fst (checkInvoiceStatus lookup st)) = None"
    using Cons.prems by (simp add: checkInvoiceStatus_invoice)
  then have "notifications (snd (checkAll rest (fst (checkInvoiceStatus lookup st)))) = 0"
    by (rule Cons.IH)
  then show ?case using Cons.prems
    by (simp add: checkAll_Cons notifications_append notifications_step del: checkAll.simps)
qed

lemma at_most_once:
  "neverReverts lookups \<Longrightarrow> notifications (snd (checkAll lookups st)) \<le> 1"
proof (induction lookups arbitrary: st)
  case Nil
  then show ?case by (simp add: notifications_def)
next
  case (Cons lookup rest)
  show ?case
  proof (cases "lr_invoice st")
    case None
    then show ?thesis using no_invoice_silent [of st "lookup # rest"] by simp
  next
    case (Some invoice)
    show ?thesis
    proof (cases "lookup = Inr True")
      case True
      with Cons.prems have nf: "Inr False \<notin> set rest" by simp
      have inv': "lr_invoice (fst (checkInvoiceStatus lookup st)) = Some (invoice \<lparr> settled := True \<rparr>)"
        using Some True by (simp add: checkInvoiceStatus_invoice)
      have "notifications (snd (checkAll rest (fst (checkInvoiceStatus lookup st)))) = 0"
        using settled_stays_silent [OF inv' _ nf] by simp
      moreover have "notifications (snd (checkInvoiceStatus lookup st)) \<le> 1"
        by (simp add: notifications_step split: option.splits)
      ultimately show ?thesis by (simp add: checkAll_Cons notifications_append del: checkAll.simps)
    next
      case False
      then have nr: "neverReverts rest" using Cons.prems
        by (cases lookup) (auto elim: neverReverts.elims)
      have "notifications (snd (checkInvoiceStatus lookup st)) = 0"
        using False by (simp add: notifications_step split: option.splits)
      moreover have "notifications (snd (checkAll rest (fst (checkInvoiceStatus lookup st)))) \<le> 1"
        using Cons.IH [OF nr] .
      ultimately show ?thesis by (simp add: checkAll_Cons notifications_append del: checkAll.simps)
    qed
  qed
qed

text \<open>
  C3, amended: a check emits \<open>transaction:new\<close> exactly when the stored invoice was
  unsettled before it and the lookup returns settled, and emits nothing else; while the
  stored invoice is settled a check emits nothing, and as long as no lookup returns
  unsettled no later check does either. So the notification fires at most once for an
  invoice, provided the node never reports the invoice unsettled after having reported it
  settled.
\<close>

theorem settlement_notification:
  "snd (checkInvoiceStatus lookup st) =
     (case lr_invoice st of
        None \<Rightarrow> []
      | Some invoice \<Rightarrow>
          if \<not> settled invoice \<and> lookup = Inr True
          then [(transaction_new, invoice \<lparr> settled := True \<rparr>)] else []) \<and>
   (lr_invoice st = Some stored \<and> settled stored \<longrightarrow> snd (checkInvoiceStatus lookup st) = []) \<and>
   (lr_invoice st = Some stored \<and> settled stored \<and> Inr False \<notin> set lookups \<longrightarrow>
      notifications (snd (checkAll lookups st)) = 0) \<and>
   (neverReverts lookups \<longrightarrow> notifications (snd (checkAll lookups st)) \<le> 1)"
proof -
  have a: "snd (checkInvoiceStatus lookup st) =
     (case lr_invoice st of
        None \<Rightarrow> []
      | Some invoice \<Rightarrow>
          if \<not> settled invoice \<and> lookup = Inr True
          then [(transaction_new, invoice \<lparr> settled := True \<rparr>)] else [])"
    by (rule checkInvoiceStatus_emits)
  have b: "lr_invoice st = Some stored \<and> settled stored \<longrightarrow> snd (checkInvoiceStatus lookup st) = []"
    by (simp add: checkInvoiceStatus_emits)
  have c: "lr_invoice st = Some stored \<and> settled stored \<and> Inr False \<notin> set lookups \<longrightarrow>
      notifications (snd (checkAll lookups st)) = 0"
    using settled_stays_silent by blast
  have d: "neverReverts lookups \<longrightarrow> notifications (snd (checkAll lookups st)) \<le> 1"
    using at_most_once by blast
  from a b c d show ?thesis by blast
qed

lemma created_invoice:
  "lr_invoice invoiceCreated =
     Some \<lparr> payment_request = ''lnbc100n1'', payment_hash = ''9f8e'',
            value_msat = numberToString (timesThousand (Finite 10)),
            timestamp = numberToString (Finite 1700000000),
            expiry = ''3600'', memo = Some ''test'', settled = False \<rparr>"
  by (simp add: invoiceCreated_def createInvoice_def scenario_addInvoice_def receiveForm_def
        lr_initial_def Let_def del: timesThousand.simps numberToString.simps)

lemma step_count:
  "lr_invoice st = Some invoice \<Longrightarrow>
     notifications (snd (checkInvoiceStatus lookup st)) =
       (if \<not> settled invoice \<and> lookup = Inr True then 1 else 0)"
  by (simp add: notifications_step)

lemma step_state:
  "lr_invoice st = Some invoice \<Longrightarrow>
     lr_invoice (fst (checkInvoiceStatus (Inr b) st)) = Some (invoice \<lparr> settled := b \<rparr>)"
  by (simp add: checkInvoiceStatus_invoice)

lemma three_checks:
  "notifications (snd (checkAll [Inr True, Inr False, Inr True] invoiceCreated)) = 2"
proof -
  let ?s1 = "fst (checkInvoiceStatus (Inr True) invoiceCreated)"
  let ?s2 = "fst (checkInvoiceStatus (Inr False) ?s1)"
  note i0 = created_invoice
  note i1 = step_state [OF i0, of True]
  note i2 = step_state [OF i1, of False]
  have n0: "notifications (snd (checkInvoiceStatus (Inr True) invoiceCreated)) = 1"
    by (simp add: step_count [OF i0])
  have n1: "notifications (snd (checkInvoiceStatus (Inr False) ?s1)) = 0"
    by (simp add: step_count [OF i1])
  have n2: "notifications (snd (checkInvoiceStatus (Inr True) ?s2)) = 1"
    by (simp add: step_count [OF i2])
  show ?thesis
    by (simp add: checkAll_Cons notifications_append n0 n1 n2 del: checkAll.simps(2))
qed

text \<open>
  C3, as stated, fails for some sequences of checks: each check overwrites the stored
  \<open>settled\<close> flag with the node's answer, so the answers settled, unsettled, settled on
  one created invoice emit \<open>transaction:new\<close> twice.
\<close>

theorem duplicate_notification_counterexample:
  "notifications (snd (checkAll [Inr True, Inr False, Inr True] invoiceCreated)) = 2 \<and>
   \<not> notifications (snd (checkAll [Inr True, Inr False, Inr True] invoiceCreated)) \<le> 1"
  using three_checks by simp

theorem settlement_notification_witness:
  "map_option settled (lr_invoice invoiceCreated) = Some False \<and>
   notifications (snd (checkInvoiceStatus (Inr True) invoiceCreated)) = 1 \<and>
   snd (checkInvoiceStatus (Inr True) (fst (checkInvoiceStatus (Inr True) invoiceCreated))) = [] \<and>
   neverReverts [Inr True, Inr True, Inr True] \<and>
   notifications (snd (checkAll [Inr True, Inr True, Inr True] invoiceCreated)) = 1"
proof -
  let ?s1 = "fst (checkInvoiceStatus (Inr True) invoiceCreated)"
  note i0 = created_invoice
  note i1 = step_state [OF i0, of True]
  have n0: "notifications (snd (checkInvoiceStatus (Inr True) invoiceCreated)) = 1"
    by (simp add: step_count [OF i0])
  have nr: "neverReverts [Inr True, Inr True, Inr True]" by simp
  have s1: "settled (the (lr_invoice ?s1))" by (simp add: i1)
  have quiet: "snd (checkInvoiceStatus (Inr True) ?s1) = []"
    using settlement_notification [of "Inr True" ?s1 "the (lr_invoice ?s1)" "[]"] i1 by simp
  have le: "notifications (snd (checkAll [Inr True, Inr True, Inr True] invoiceCreated)) \<le> 1"
    using settlement_notification [of "Inr True" invoiceCreated "the (lr_invoice ?s1)"
            "[Inr True, Inr True, Inr True]"] nr by blast
  have ge: "notifications (snd (checkAll [Inr True, Inr True, Inr True] invoiceCreated)) \<ge> 1"
    by (simp add: checkAll_Cons notifications_append n0 del: checkAll.simps(2))
  from le ge n0 nr quiet show ?thesis by (simp add: created_invoice)
qed

section \<open>Properties of the event bus\<close>

lemma forEach_calls:
  "calls (forEach event args callbacks acc) = calls acc @ map (\<lambda>cb. (fst cb, args)) callbacks"
proof (induction callbacks arbitrary: acc)
  case Nil
  show ?case by simp
next
  case (Cons callback rest)
  obtain w r where run: "snd callback args (world acc) = (w, r)"
    by (cases "snd callback args (world acc)")
  show ?case
    by (cases r) (simp_all add: run Cons.IH)
qed

lemma forEach_world:
  "world (forEach event args callbacks acc) =
     foldl (\<lambda>w cb. fst (snd cb args w)) (world acc) callbacks"
proof (induction callbacks arbitrary: acc)
  case Nil
  show ?case by simp
next
  case (Cons callback rest)
  obtain w r where run: "snd callback args (world acc) = (w, r)"
    by (cases "snd callback args (world acc)")
  show ?case
    by (cases r) (simp_all add: run Cons.IH)
qed

lemma events_on:
  "events (on bus event callback) event =
     Some ((case events bus event of None \<Rightarrow> [] | Some cbs \<Rightarrow> cbs) @ [callback])"
  by (simp add: on_def Let_def)

text \<open>
  C9: emitting an event that has no subscribers (no entry in the map, or an empty list)
  changes nothing: the world is as before, no callback is called, nothing is logged. When
  the event has subscribers, every one of them is called, in order and with the arguments
  of \<open>emit\<close>, whether or not an earlier one threw: a throw is caught around the single
  call and the loop goes on with the world the thrower left. A callback subscribed with
  \<open>on\<close> is called after those subscribed before it.
\<close>

theorem emit_isolates_callbacks:
  "(events bus event = None \<or> events bus event = Some [] \<longrightarrow>
      emit bus event args w = \<lparr> world = w, calls = [], console = [] \<rparr>) \<and>
   (events bus event = Some callbacks \<longrightarrow>
      calls (emit bus event args w) = map (\<lambda>cb. (fst cb, args)) callbacks \<and>
      world (emit bus event args w) = foldl (\<lambda>w cb. fst (snd cb args w)) w callbacks) \<and>
   calls (emit (on bus event callback) event args w) =
     calls (emit bus event args w) @ [(fst callback, args)]"
proof -
  have none: "events bus event = None \<or> events bus event = Some [] \<longrightarrow>
      emit bus event args w = \<lparr> world = w, calls = [], console = [] \<rparr>"
    by (auto simp: emit_def)
  have some: "events bus event = Some callbacks \<longrightarrow>
      calls (emit bus event args w) = map (\<lambda>cb. (fst cb, args)) callbacks \<and>
      world (emit bus event args w) = foldl (\<lambda>w cb. fst (snd cb args w)) w callbacks"
    by (simp add: emit_def forEach_calls forEach_world)
  have sub: "calls (emit (on bus event callback) event args w) =
     calls (emit bus event args w) @ [(fst callback, args)]"
    by (cases "events bus event") (simp_all add: emit_def events_on forEach_calls del: forEach.simps)
  from none some sub show ?thesis by blast
qed

lemma scenario_bus_events:
  "events scenario_bus transaction_new = Some [throwingCallback, recordingCallback]"
  "events scenario_bus payment_sent = None"
  by (simp_all add: scenario_bus_def on_def newEventBus_def Let_def)

theorem emit_isolates_callbacks_witness:
  "emit scenario_bus payment_sent ''paid'' [] = \<lparr> world = [], calls = [], console = [] \<rparr> \<and>
   calls (emit scenario_bus transaction_new ''paid'' []) = [(1, ''paid''), (2, ''paid'')] \<and>
   world (emit scenario_bus transaction_new ''paid'' []) = [4] \<and>
   console (emit scenario_bus transaction_new ''paid'' []) = [(transaction_new, JsError ''handler failed'')]"
proof -
  have c: "console (emit scenario_bus transaction_new ''paid'' []) = [(transaction_new, JsError ''handler failed'')]"
    by (simp add: emit_def scenario_bus_events throwingCallback_def recordingCallback_def)
  show ?thesis
    using emit_isolates_callbacks [of scenario_bus payment_sent "''paid''" "[]" "[]" throwingCallback]
          emit_isolates_callbacks [of scenario_bus transaction_new "''paid''" "[]"
             "[throwingCallback, recordingCallback]" throwingCallback]
          scenario_bus_events c
    by (simp add: throwingCallback_def recordingCallback_def)
qed

section \<open>Properties of the send form\<close>

lemma getProp_object: "getProp v k = Some x \<Longrightarrow> truthyJ v \<and> isObject v \<and> v \<noteq> JNull"
  by (cases v) simp_all

lemma truthyProp_object: "truthyProp v k \<Longrightarrow> truthyJ v \<and> v \<noteq> JNull"
  by (cases v) (simp_all add: truthyProp_def)

lemma catching_returned: "snd r = None \<Longrightarrow> catching msg r = fst r"
  by (cases r) (simp add: catching_def)

lemma stream_path:
  assumes "JSON_parse js raw = Some (JStr text)"
  shows "processPaymentResponse js raw st =
     (if jsonStrings text = [] then failWith ''No valid payment response found'' st
      else (case JSON_parse js (last (jsonStrings text)) of
              None \<Rightarrow> failWith ''Unable to parse payment response'' st
            | Some paymentData \<Rightarrow>
                if \<not> truthyProp paymentData ''result''
                then failWith ''Invalid payment response format'' st
                else catching ''Unable to parse payment response''
                       (handlePaymentUpdate js paymentData st)))"
  using assms truthyProp_object
  by (auto simp: processPaymentResponse_def Let_def split: option.splits)

lemma handle_succeeded:
  assumes "getProp paymentData ''result'' = Some result" and "truthyJ result"
    and "getProp result ''status'' = Some (JStr ''SUCCEEDED'')"
  shows "handlePaymentUpdate js paymentData st =
           (st \<lparr> paymentResult := Some paymentData, ls_loading := False, ls_error := None \<rparr>, None)"
  using assms getProp_object [OF assms(1)]
  by (simp add: handlePaymentUpdate_def Let_def)

lemma handle_never_throws:
  "truthyProp paymentData ''result'' \<Longrightarrow> snd (handlePaymentUpdate js paymentData st) = None"
  using truthyProp_object [of paymentData "''result''"]
  by (auto simp: handlePaymentUpdate_def Let_def split: option.splits)

lemma splitOn_line: "c \<notin> set l \<Longrightarrow> splitOn c l = [l]"
  by (induction l) auto

lemma splitOn_first_line: "c \<notin> set l \<Longrightarrow> splitOn c (l @ c # rest) = l # splitOn c rest"
  by (induction l) (auto split: list.splits)

lemma splitOn_joinLines:
  "ls \<noteq> [] \<Longrightarrow> \<forall>l \<in> set ls. c \<notin> set l \<Longrightarrow> c = CHR 0x0A \<Longrightarrow> splitOn c (joinLines ls) = ls"
proof (induction ls rule: joinLines.induct)
  case 1
  then show ?case by simp
next
  case (2 l)
  then show ?case by (simp add: splitOn_line)
next
  case (3 l v va)
  have "splitOn c (l @ c # joinLines (v # va)) = l # splitOn c (joinLines (v # va))"
    using 3(3) by (simp add: splitOn_first_line)
  moreover have "splitOn c (joinLines (v # va)) = v # va"
    using 3 by simp
  ultimately show ?case using 3(4) by simp
qed

lemma dropWhile_all: "(\<forall>x \<in> set (dropWhile P xs). P x) = (\<forall>x \<in> set xs. P x)"
proof
  assume a: "\<forall>x \<in> set (dropWhile P xs). P x"
  have "dropWhile P xs = []"
  proof (rule ccontr)
    assume ne: "dropWhile P xs \<noteq> []"
    then have "\<not> P (hd (dropWhile P xs))" by (rule hd_dropWhile)
    moreover have "hd (dropWhile P xs) \<in> set (dropWhile P xs)" using ne by simp
    ultimately show False using a by blast
  qed
  then show "\<forall>x \<in> set xs. P x" by (simp add: dropWhile_eq_Nil_conv)
next
  assume "\<forall>x \<in> set xs. P x"
  then show "\<forall>x \<in> set (dropWhile P xs). P x" using set_dropWhileD by fastforce
qed

lemma trim_nonBlank: "(trim s \<noteq> []) = nonBlank s"
proof -
  have "(trim s = []) = (\<forall>x \<in> set (dropWhile isWhiteSpace s). isWhiteSpace x)"
    by (simp add: trim_def dropWhile_eq_Nil_conv)
  also have "\<dots> = (\<forall>x \<in> set s. isWhiteSpace x)" by (rule dropWhile_all)
  finally show ?thesis by (simp add: nonBlank_def)
qed

lemma jsonStrings_joinLines:
  "ls \<noteq> [] \<Longrightarrow> \<forall>l \<in> set ls. CHR 0x0A \<notin> set l \<Longrightarrow> jsonStrings (joinLines ls) = filter nonBlank ls"
  by (simp add: jsonStrings_def splitOn_joinLines trim_nonBlank)

text \<open>
  C2: a streamed response is a string of lines separated by line feeds. When the raw
  response parses to such a string, the last of its lines that is not blank (has a
  character other than white space) parses to a record, and that record has a truthy
  \<open>result\<close>, then \<open>processPaymentResponse\<close> hands that record to \<open>handlePaymentUpdate\<close>
  and ends in the state the handler reaches, whatever the lines before it and the blank
  lines after it: two streams with the same last non-blank line give the same state. In
  particular, when the status of the last record is \<open>SUCCEEDED\<close> (as when an \<open>IN_FLIGHT\<close>
  line is followed by a \<open>SUCCEEDED\<close> line), the component ends with the payment result
  set to that record, loading false and error null.
\<close>

theorem last_line_decides:
  assumes "JSON_parse js raw = Some (JStr (joinLines ls))"
    and "\<forall>l \<in> set ls. CHR 0x0A \<notin> set l"
    and "filter nonBlank ls = earlier @ [lastLine]"
    and "JSON_parse js lastLine = Some paymentData"
    and "getProp paymentData ''result'' = Some result"
    and "truthyJ result"
  shows "processPaymentResponse js raw st = fst (handlePaymentUpdate js paymentData st) \<and>
         (getProp result ''status'' = Some (JStr ''SUCCEEDED'') \<longrightarrow>
            processPaymentResponse js raw st =
              st \<lparr> paymentResult := Some paymentData, ls_loading := False, ls_error := None \<rparr>) \<and>
         (JSON_parse js raw' = Some (JStr (joinLines ls')) \<and> (\<forall>l \<in> set ls'. CHR 0x0A \<notin> set l) \<and>
          filter nonBlank ls' = earlier' @ [lastLine] \<longrightarrow>
            processPaymentResponse js raw' st = processPaymentResponse js raw st)"
proof -
  have tp: "truthyProp paymentData ''result''"
    using assms(5,6) by (simp add: truthyProp_def)
  have nothrow: "snd (handlePaymentUpdate js paymentData st) = None"
    using tp by (rule handle_never_throws)
  have handled: "processPaymentResponse js r st = fst (handlePaymentUpdate js paymentData st)"
    if p: "JSON_parse js r = Some (JStr (joinLines xs))"
      and nl: "\<forall>l \<in> set xs. CHR 0x0A \<notin> set l"
      and f: "filter nonBlank xs = before @ [lastLine]"
    for r xs before
  proof -
    have ne: "xs \<noteq> []" using f by auto
    have js: "jsonStrings (joinLines xs) = before @ [lastLine]"
      using jsonStrings_joinLines [OF ne nl] f by simp
    show ?thesis
      by (simp add: stream_path [OF p] js assms(4) tp catching_returned [OF nothrow])
  qed
  have kept: "processPaymentResponse js raw st = fst (handlePaymentUpdate js paymentData st)"
    using assms(1,2,3) by (rule handled)
  have ok: "getProp result ''status'' = Some (JStr ''SUCCEEDED'') \<longrightarrow>
            processPaymentResponse js raw st =
              st \<lparr> paymentResult := Some paymentData, ls_loading := False, ls_error := None \<rparr>"
    using kept by (simp add: handle_succeeded [OF assms(5,6)])
  have same: "JSON_parse js raw' = Some (JStr (joinLines ls')) \<and> (\<forall>l \<in> set ls'. CHR 0x0A \<notin> set l) \<and>
          filter nonBlank ls' = earlier' @ [lastLine] \<longrightarrow>
            processPaymentResponse js raw' st = processPaymentResponse js raw st"
    using handled [of raw' ls' earlier'] kept by simp
  from kept ok same show ?thesis by blast
qed

lemma lines_paymentStream: "jsonStrings paymentStream = [inFlightLine, succeededLine]"
  by (simp add: jsonStrings_def paymentStream_def paymentLines_def inFlightLine_def
        succeededLine_def trim_def isWhiteSpace_def)

lemma lines_brokenStream: "jsonStrings brokenStream = [inFlightLine, ''{result'']"
  by (simp add: jsonStrings_def brokenStream_def inFlightLine_def trim_def isWhiteSpace_def)

lemma lines_noResultStream: "jsonStrings noResultStream = [inFlightLine, ''{}'']"
  by (simp add: jsonStrings_def noResultStream_def inFlightLine_def trim_def isWhiteSpace_def)

lemma parse_raw:
  "JSON_parse scenario_js (quoted paymentStream) = Some (JStr paymentStream)"
  "JSON_parse scenario_js (quoted brokenStream) = Some (JStr brokenStream)"
  "JSON_parse scenario_js (quoted noResultStream) = Some (JStr noResultStream)"
  by (simp_all add: scenario_js_def scenario_parse_def quoted_def paymentStream_def paymentLines_def
        brokenStream_def noResultStream_def inFlightLine_def succeededLine_def)

lemma parse_lines:
  "JSON_parse scenario_js succeededLine = Some succeededRecord"
  "JSON_parse scenario_js ''{result'' = None"
  "JSON_parse scenario_js ''{}'' = Some (JObj [])"
  by (simp_all add: scenario_js_def scenario_parse_def quoted_def succeededLine_def inFlightLine_def
        paymentStream_def paymentLines_def brokenStream_def noResultStream_def)

lemma payment_lines:
  "\<forall>l \<in> set paymentLines. CHR 0x0A \<notin> set l"
  "filter nonBlank paymentLines = [inFlightLine] @ [succeededLine]"
  by (simp_all add: paymentLines_def nonBlank_def isWhiteSpace_def inFlightLine_def
        succeededLine_def)

lemma payment_stream_text:
  "paymentStream =
     inFlightLine @ [CHR 0x0A, CHR 0x0A] @ succeededLine @ [CHR 0x0A] @ ''  '' @ [CHR 0x0A]"
  by (simp add: paymentStream_def paymentLines_def)

theorem last_line_decides_witness:
  "paymentStream =
     inFlightLine @ [CHR 0x0A, CHR 0x0A] @ succeededLine @ [CHR 0x0A] @ ''  '' @ [CHR 0x0A] \<and>
   processPaymentResponse scenario_js (quoted paymentStream) sending =
     sending \<lparr> paymentResult := Some succeededRecord, ls_loading := False, ls_error := None \<rparr> \<and>
   paymentResult (rawResponseEffect scenario_js (sendPayment scenario_js streamingSend sendForm))
     = Some succeededRecord \<and>
   ls_loading (rawResponseEffect scenario_js (sendPayment scenario_js streamingSend sendForm)) = False \<and>
   ls_error (rawResponseEffect scenario_js (sendPayment scenario_js streamingSend sendForm)) = None"
proof -
  have raw0: "JSON_parse scenario_js (quoted paymentStream) = Some (JStr (joinLines paymentLines))"
    using parse_raw(1) by (simp only: paymentStream_def)
  have res: "getProp succeededRecord ''result'' = Some (JObj [(''status'', JStr ''SUCCEEDED'')])"
    by (simp add: succeededRecord_def)
  have tr: "truthyJ (JObj [(''status'', JStr ''SUCCEEDED'')])" by simp
  have st: "getProp (JObj [(''status'', JStr ''SUCCEEDED'')]) ''status'' = Some (JStr ''SUCCEEDED'')"
    by simp
  have sent: "sendPayment scenario_js streamingSend sendForm =
      sendForm \<lparr> ls_loading := True, ls_error := None, paymentResult := None,
                 rawResponse := quoted paymentStream \<rparr>"
    by (simp add: sendPayment_def Let_def sendForm_def ls_initial_def trim_def isWhiteSpace_def
          streamingSend_def scenario_js_def)
  have raw: "quoted paymentStream \<noteq> []" by (simp add: quoted_def)
  note w = last_line_decides [OF raw0 payment_lines(1) payment_lines(2) parse_lines(1) res tr]
  have p1: "processPaymentResponse scenario_js (quoted paymentStream) sending =
     sending \<lparr> paymentResult := Some succeededRecord, ls_loading := False, ls_error := None \<rparr>"
    using w [of sending "quoted paymentStream" paymentLines "[inFlightLine]"] st by blast
  have p2: "processPaymentResponse scenario_js (quoted paymentStream)
              (sendPayment scenario_js streamingSend sendForm) =
     (sendPayment scenario_js streamingSend sendForm)
       \<lparr> paymentResult := Some succeededRecord, ls_loading := False, ls_error := None \<rparr>"
    using w [of "sendPayment scenario_js streamingSend sendForm" "quoted paymentStream" paymentLines
               "[inFlightLine]"]
          st by blast
  have eff: "rawResponseEffect scenario_js (sendPayment scenario_js streamingSend sendForm) =
     (sendPayment scenario_js streamingSend sendForm)
       \<lparr> paymentResult := Some succeededRecord, ls_loading := False, ls_error := None \<rparr>"
    using raw by (simp add: rawResponseEffect_def sent p2 [unfolded sent])
  from payment_stream_text p1 show ?thesis
    by (simp only: eff) simp
qed

text \<open>
  C8: when the last non-empty line of a streamed response does not parse,
  \<open>processPaymentResponse\<close> sets the error \<open>Unable to parse payment response\<close> and loading
  false; when it parses to a value without a truthy \<open>result\<close>, the error is
  \<open>Invalid payment response format\<close> and loading is false. Whatever the raw response,
  \<open>processPaymentResponse\<close> returns a state and lets no exception out: either an error is
  set and loading is false, or the state is that of a handled update that returned without
  throwing. When the node client's send call throws, \<open>sendPayment\<close> sets the one generic
  error string and loading false.
\<close>

theorem payment_errors_reported:
  "(JSON_parse js raw = Some (JStr text) \<and> jsonStrings text \<noteq> [] \<and>
    JSON_parse js (last (jsonStrings text)) = None \<longrightarrow>
      processPaymentResponse js raw st =
        st \<lparr> ls_error := Some ''Unable to parse payment response'', ls_loading := False \<rparr>) \<and>
   (JSON_parse js raw = Some (JStr text) \<and> jsonStrings text \<noteq> [] \<and>
    JSON_parse js (last (jsonStrings text)) = Some paymentData \<and>
    \<not> truthyProp paymentData ''result'' \<longrightarrow>
      processPaymentResponse js raw st =
        st \<lparr> ls_error := Some ''Invalid payment response format'', ls_loading := False \<rparr>) \<and>
   ((ls_error (processPaymentResponse js raw st) \<noteq> None \<and>
     \<not> ls_loading (processPaymentResponse js raw st)) \<or>
    (\<exists>update. truthyProp update ''result'' \<and>
       handlePaymentUpdate js update st = (processPaymentResponse js raw st, None))) \<and>
   (trim (paymentRequest st) \<noteq> [] \<and> sendPaymentV2 (paymentRequest st) = Inl err \<longrightarrow>
      ls_error (sendPayment js sendPaymentV2 st)
        = Some ''Failed to send payment. Please check your invoice and node connection.'' \<and>
      \<not> ls_loading (sendPayment js sendPaymentV2 st))"
proof -
  have inner: "JSON_parse js raw = Some (JStr text) \<and> jsonStrings text \<noteq> [] \<and>
    JSON_parse js (last (jsonStrings text)) = None \<longrightarrow>
      processPaymentResponse js raw st =
        st \<lparr> ls_error := Some ''Unable to parse payment response'', ls_loading := False \<rparr>"
    by (auto simp: stream_path failWith_def)
  have noresult: "JSON_parse js raw = Some (JStr text) \<and> jsonStrings text \<noteq> [] \<and>
    JSON_parse js (last (jsonStrings text)) = Some paymentData \<and>
    \<not> truthyProp paymentData ''result'' \<longrightarrow>
      processPaymentResponse js raw st =
        st \<lparr> ls_error := Some ''Invalid payment response format'', ls_loading := False \<rparr>"
    by (auto simp: stream_path failWith_def)
  have total: "(ls_error (processPaymentResponse js raw st) \<noteq> None \<and>
     \<not> ls_loading (processPaymentResponse js raw st)) \<or>
    (\<exists>update. truthyProp update ''result'' \<and>
       handlePaymentUpdate js update st = (processPaymentResponse js raw st, None))"
  proof (cases "JSON_parse js raw")
    case None
    then show ?thesis by (simp add: processPaymentResponse_def failWith_def)
  next
    case (Some responseData)
    show ?thesis
    proof (cases "truthyProp responseData ''result''")
      case True
      then have d: "truthyJ responseData \<and> isObject responseData"
        by (cases responseData) (simp_all add: truthyProp_def)
      have "snd (handlePaymentUpdate js responseData st) = None"
        using True by (rule handle_never_throws)
      then have "handlePaymentUpdate js responseData st = (processPaymentResponse js raw st, None)"
        using Some True d
        by (cases "handlePaymentUpdate js responseData st")
           (simp add: processPaymentResponse_def catching_def)
      with True show ?thesis by blast
    next
      case noobj: False
      show ?thesis
      proof (cases responseData)
        case (JStr text')
        have sp: "processPaymentResponse js raw st =
          (if jsonStrings text' = [] then failWith ''No valid payment response found'' st
           else (case JSON_parse js (last (jsonStrings text')) of
              None \<Rightarrow> failWith ''Unable to parse payment response'' st
            | Some paymentData \<Rightarrow>
                if \<not> truthyProp paymentData ''result''
                then failWith ''Invalid payment response format'' st
                else catching ''Unable to parse payment response''
                       (handlePaymentUpdate js paymentData st)))"
          using Some JStr by (simp add: stream_path)
        show ?thesis
        proof (cases "jsonStrings text' = []")
          case True
          then show ?thesis by (simp add: sp failWith_def)
        next
          case ne: False
          show ?thesis
          proof (cases "JSON_parse js (last (jsonStrings text'))")
            case None
            then show ?thesis using ne by (simp add: sp failWith_def)
          next
            case (Some paymentData)
            show ?thesis
            proof (cases "truthyProp paymentData ''result''")
              case True
              have "snd (handlePaymentUpdate js paymentData st) = None"
                using True by (rule handle_never_throws)
              then have "handlePaymentUpdate js paymentData st = (processPaymentResponse js raw st, None)"
                using Some True ne
                by (cases "handlePaymentUpdate js paymentData st") (simp add: sp catching_def)
              with True show ?thesis by blast
            next
              case False
              then show ?thesis using Some ne by (simp add: sp failWith_def)
            qed
          qed
        qed
      qed (use Some noobj in \<open>simp_all add: processPaymentResponse_def failWith_def\<close>)
    qed
  qed
  have send: "trim (paymentRequest st) \<noteq> [] \<and> sendPaymentV2 (paymentRequest st) = Inl err \<longrightarrow>
      ls_error (sendPayment js sendPaymentV2 st)
        = Some ''Failed to send payment. Please check your invoice and node connection.'' \<and>
      \<not> ls_loading (sendPayment js sendPaymentV2 st)"
    by (auto simp: sendPayment_def Let_def trim_def)
  from inner noresult total send show ?thesis by blast
qed

theorem payment_errors_reported_witness:
  "processPaymentResponse scenario_js (quoted brokenStream) sending =
     sending \<lparr> ls_error := Some ''Unable to parse payment response'', ls_loading := False \<rparr> \<and>
   processPaymentResponse scenario_js (quoted noResultStream) sending =
     sending \<lparr> ls_error := Some ''Invalid payment response format'', ls_loading := False \<rparr> \<and>
   ls_error (sendPayment scenario_js failingSend sendForm)
     = Some ''Failed to send payment. Please check your invoice and node connection.'' \<and>
   ls_loading (sendPayment scenario_js failingSend sendForm) = False"
proof -
  have b: "jsonStrings brokenStream \<noteq> [] \<and> JSON_parse scenario_js (last (jsonStrings brokenStream)) = None"
    by (simp add: lines_brokenStream parse_lines)
  have n: "jsonStrings noResultStream \<noteq> [] \<and>
           JSON_parse scenario_js (last (jsonStrings noResultStream)) = Some (JObj []) \<and>
           \<not> truthyProp (JObj []) ''result''"
    by (simp add: lines_noResultStream parse_lines truthyProp_def)
  have f: "trim (paymentRequest sendForm) \<noteq> [] \<and>
           failingSend (paymentRequest sendForm) = Inl (JsError ''connection refused'')"
    by (simp add: sendForm_def ls_initial_def trim_def isWhiteSpace_def failingSend_def)
  show ?thesis
    using payment_errors_reported [of scenario_js "quoted brokenStream" brokenStream sending
            "JObj []" failingSend "JsError ''connection refused''"]
          payment_errors_reported [of scenario_js "quoted noResultStream" noResultStream sending
            "JObj []" failingSend "JsError ''connection refused''"]
          payment_errors_reported [of scenario_js "quoted noResultStream" noResultStream sendForm
            "JObj []" failingSend "JsError ''connection refused''"]
          parse_raw b n f
    by simp
qed

end
